theory Spec2Isabelle
  imports Main "HOL-Library.AList"
begin

section \<open>Data model of the verification controller\<close>

text \<open>
  The session controller of \<^verbatim>\<open>VerificationController.ts\<close>. JavaScript objects used as
  dictionaries are association lists in insertion order (the keys are content hashes, never
  integer-like, so \<^verbatim>\<open>for ... in\<close> and \<^verbatim>\<open>Object.values\<close> follow insertion order);
  assigning to a key is \<^const>\<open>AList.update\<close>, which keeps the position of a key already
  there and appends a new one. A field that may be \<^verbatim>\<open>undefined\<close> or \<^verbatim>\<open>null\<close> is an
  \<open>option\<close>. Exceptions are values of the type \<open>error\<close>.
\<close>

datatype error =
    PayloadTooLargeError string
  | BadRequestError string
  | TypeError string
  | ServiceError string

fun message_of :: "error \<Rightarrow> string" where
  "message_of (PayloadTooLargeError m) = m"
| "message_of (BadRequestError m) = m"
| "message_of (TypeError m) = m"
| "message_of (ServiceError m) = m"

record pathContent =
  pc_path :: string
  pc_content :: string

record pathBuffer =
  pb_path :: string
  pb_buffer :: string

record checkedContract =
  metadataRaw :: string
  c_name :: string
  compilerVersion :: "string option"
  solidity :: "(string \<times> string) list"
  missing :: "(string \<times> string) list"
  invalid :: "(string \<times> string) list"

record match =
  m_address :: "string option"
  m_status :: "string option"
  m_message :: "string option"
  m_storageTimestamp :: "nat option"

record contractWrapper =
  contract :: checkedContract
  address :: "string option"
  chainId :: "string option"
  status :: "string option"
  statusMessage :: "string option"
  storageTimestamp :: "nat option"

record session =
  inputFiles :: "(string \<times> pathContent) list option"
  contractWrappers :: "(string \<times> contractWrapper) list option"
  unusedSources :: "string list option"

record inputData =
  i_addresses :: "string option list"
  i_chain :: "string option"
  i_contract :: checkedContract


text \<open>JavaScript truthiness of an optional string: \<^verbatim>\<open>undefined\<close>, \<^verbatim>\<open>null\<close> and \<^verbatim>\<open>""\<close> are falsy.\<close>

fun truthy :: "string option \<Rightarrow> bool" where
  "truthy None = False"
| "truthy (Some s) = (s \<noteq> [])"

text \<open>The files and the candidates a session holds; an absent dictionary holds none.\<close>

definition files_of :: "session \<Rightarrow> (string \<times> pathContent) list" where
  "files_of s = (case inputFiles s of None \<Rightarrow> [] | Some m \<Rightarrow> m)"

definition wrappers_of :: "session \<Rightarrow> (string \<times> contractWrapper) list" where
  "wrappers_of s = (case contractWrappers s of None \<Rightarrow> [] | Some m \<Rightarrow> m)"

section \<open>The content-addressed file store: \<^verbatim>\<open>saveFiles\<close>\<close>

definition MAX_SESSION_SIZE :: nat where
  "MAX_SESSION_SIZE = 50 * 1024 * 1024"

definition too_much_msg :: string where
  "too_much_msg = ''Too much session memory used. Delete some files or clear the session.''"

text \<open>
  The sizes \<^verbatim>\<open>saveFiles\<close> adds up are the lengths of the (base64) content strings: first
  those of every file of the session, then those of every file of the batch.
\<close>

definition stored_size :: "(string \<times> pathContent) list \<Rightarrow> nat" where
  "stored_size files = sum_list (map (\<lambda>(k, pc). length (pc_content pc)) files)"

definition batch_size :: "pathContent list \<Rightarrow> nat" where
  "batch_size pcs = sum_list (map (\<lambda>pc. length (pc_content pc)) pcs)"

text \<open>
  The body of the second \<^verbatim>\<open>forEach\<close>: a file whose id is not yet a key of
  \<^verbatim>\<open>session.inputFiles\<close> is stored and counted. \<open>gid\<close> is \<^verbatim>\<open>generateId\<close>, which lives
  in \<^verbatim>\<open>VerificationController-util\<close> and is a parameter here.
\<close>

definition saveFiles_step ::
  "(string \<Rightarrow> string) \<Rightarrow> (string \<times> pathContent) list \<times> nat \<Rightarrow> pathContent
    \<Rightarrow> (string \<times> pathContent) list \<times> nat" where
  "saveFiles_step gid acc pc =
     (let newId = gid (pc_content pc) in
      if newId \<notin> set (map fst (fst acc))
      then (AList.update newId pc (fst acc), snd acc + 1)
      else acc)"

text \<open>
  \<^verbatim>\<open>saveFiles\<close> mutates the session it is given and either returns the number of new files
  or throws; the model returns both the outcome and the session as the call leaves it.
\<close>

definition saveFiles ::
  "(string \<Rightarrow> string) \<Rightarrow> pathContent list \<Rightarrow> session \<Rightarrow> (error + nat) \<times> session" where
  "saveFiles gid pathContents s =
     (let files = files_of s;
          s0 = s\<lparr>inputFiles := Some files\<rparr>;
          inputSize = stored_size files + batch_size pathContents
      in if inputSize > MAX_SESSION_SIZE
         then (Inl (PayloadTooLargeError too_much_msg), s0)
         else (let r = foldl (saveFiles_step gid) (files, 0) pathContents
               in (Inr (snd r), s0\<lparr>inputFiles := Some (fst r)\<rparr>)))"

section \<open>External collaborators\<close>

text \<open>
  The validation service, the verification service and the helpers of
  \<^verbatim>\<open>VerificationController-util\<close> are parameters of the model. The services are
  asynchronous and stateful, so each takes the state \<open>'w\<close> of the outside world and returns
  the new one together with either the error it throws or its result; \<^verbatim>\<open>findByAddress\<close>
  and \<^verbatim>\<open>findAllByAddress\<close> are synchronous reads that may throw.
  \<^verbatim>\<open>CheckedContract.fetchMissing\<close> changes the contract it is given; its rejection is
  caught and logged by the caller, so it returns the contract as it leaves it.
\<close>

record 'w services =
  generateId :: "string \<Rightarrow> string"
  isVerifiable :: "contractWrapper \<Rightarrow> bool"
  isValid :: "checkedContract \<Rightarrow> bool"
  fromBase64 :: "string \<Rightarrow> string"
  fetchMissing :: "'w \<Rightarrow> checkedContract \<Rightarrow> checkedContract \<times> 'w"
  findByAddress :: "'w \<Rightarrow> string option \<Rightarrow> string option \<Rightarrow> error + match list"
  findAllByAddress :: "'w \<Rightarrow> string \<Rightarrow> string \<Rightarrow> error + match list"
  inject :: "'w \<Rightarrow> inputData \<Rightarrow> (error + match) \<times> 'w"
  useAllSources ::
    "'w \<Rightarrow> checkedContract \<Rightarrow> pathBuffer list \<Rightarrow> (error + checkedContract) \<times> 'w"
  checkFiles ::
    "'w \<Rightarrow> pathBuffer list \<Rightarrow> (error + checkedContract list \<times> string list) \<times> 'w"

text \<open>
  Every call the controller makes to a collaborator is appended to a log beside the world,
  so that what was called, with what and how often can be stated.
\<close>

datatype call =
    CFetchMissing checkedContract
  | CFindByAddress "string option" "string option"
  | CInject inputData
  | CUseAllSources checkedContract "pathBuffer list"
  | CCheckFiles "pathBuffer list"

record 'w ext =
  world :: 'w
  calls :: "call list"

fun is_inject :: "call \<Rightarrow> bool" where
  "is_inject (CInject d) = True"
| "is_inject c = False"

definition injects :: "call list \<Rightarrow> nat" where
  "injects cs = length (filter is_inject cs)"

text \<open>
  Modelled from the spec: \<^verbatim>\<open>isVerifiable\<close> of \<^verbatim>\<open>VerificationController-util\<close> is not
  among the sources. The spec's gate: a candidate is verifiable iff its missing sources are
  empty, its address and chain id are both set and its compiler version is present. The
  controller takes the gate as the parameter \<open>isVerifiable\<close>; this one instantiates it in
  examples.
\<close>

definition isVerifiable_spec :: "contractWrapper \<Rightarrow> bool" where
  "isVerifiable_spec cw =
     (missing (contract cw) = [] \<and> truthy (address cw) \<and> truthy (chainId cw)
      \<and> truthy (compilerVersion (contract cw)))"

text \<open>
  Modelled from the spec: \<^verbatim>\<open>updateUnused\<close> of \<^verbatim>\<open>VerificationController-util\<close> is not
  among the sources. The spec: the paths the validation service could not attribute to a
  candidate are tracked by the session separately from files and candidates.
\<close>

definition updateUnused :: "string list \<Rightarrow> session \<Rightarrow> session" where
  "updateUnused unused s = s\<lparr>unusedSources := Some unused\<rparr>"

section \<open>The candidate assembler: \<^verbatim>\<open>validateContracts\<close>\<close>

definition toPathBuffers :: "(string \<Rightarrow> string) \<Rightarrow> (string \<times> pathContent) list \<Rightarrow> pathBuffer list" where
  "toPathBuffers dec files =
     map (\<lambda>(k, pc). \<lparr>pb_path = pc_path pc, pb_buffer = dec (pc_content pc)\<rparr>) files"

definition newWrapper :: "checkedContract \<Rightarrow> contractWrapper" where
  "newWrapper c =
     \<lparr>contract = c, address = None, chainId = None, status = None, statusMessage = None,
      storageTimestamp = None\<rparr>"

definition newPendingContracts ::
  "(string \<Rightarrow> string) \<Rightarrow> checkedContract list \<Rightarrow> (string \<times> contractWrapper) list" where
  "newPendingContracts gid contracts =
     foldl (\<lambda>m c. AList.update (gid (metadataRaw c)) (newWrapper c) m) [] contracts"

text \<open>
  The merge into a candidate already in the session: the loop copies every path of the new
  \<^verbatim>\<open>solidity\<close> into the old one and deletes it from the old \<^verbatim>\<open>missing\<close>; the two
  assignments after the loop then replace both dictionaries by the new ones.
\<close>

definition copySources :: "checkedContract \<Rightarrow> (string \<times> string) list \<Rightarrow> checkedContract" where
  "copySources old news =
     foldl (\<lambda>c pv. c\<lparr>solidity := AList.update (fst pv) (snd pv) (solidity c),
                      missing := AList.delete (fst pv) (missing c)\<rparr>) old news"

definition mergeSources :: "checkedContract \<Rightarrow> checkedContract \<Rightarrow> checkedContract" where
  "mergeSources old new =
     (copySources old (solidity new))\<lparr>solidity := solidity new, missing := missing new\<rparr>"

definition mergeWrapper ::
  "(string \<times> contractWrapper) list \<Rightarrow> string \<times> contractWrapper
    \<Rightarrow> (string \<times> contractWrapper) list" where
  "mergeWrapper cws nw =
     (case map_of cws (fst nw) of
        Some old \<Rightarrow>
          AList.update (fst nw) (old\<lparr>contract := mergeSources (contract old) (contract (snd nw))\<rparr>) cws
      | None \<Rightarrow> AList.update (fst nw) (snd nw) cws)"





definition validateContracts :: "'w services \<Rightarrow> session \<times> 'w ext \<Rightarrow> session \<times> 'w ext" where
  "validateContracts svc se =
     (let s = fst se; e = snd se;
          pathBuffers = toPathBuffers (fromBase64 svc) (files_of s);
          r = checkFiles svc (world e) pathBuffers;
          e' = \<lparr>world = snd r, calls = calls e @ [CCheckFiles pathBuffers]\<rparr>
      in case fst r of
           Inl err \<Rightarrow> (updateUnused (map pb_path pathBuffers) s, e')
         | Inr res \<Rightarrow>
             (let pending = newPendingContracts (generateId svc) (fst res);
                  cws = foldl mergeWrapper (wrappers_of s) pending
              in (updateUnused (snd res) (s\<lparr>contractWrappers := Some cws\<rparr>), e')))"

section \<open>The verification orchestrator: \<^verbatim>\<open>verifyValidated\<close>\<close>

definition checkAndFetchMissing ::
  "'w services \<Rightarrow> checkedContract \<Rightarrow> 'w ext \<Rightarrow> checkedContract \<times> 'w ext" where
  "checkAndFetchMissing svc c e =
     (if \<not> isValid svc c
      then (let r = fetchMissing svc (world e) c
            in (fst r, \<lparr>world = snd r, calls = calls e @ [CFetchMissing c]\<rparr>))
      else (c, e))"

definition call_inject :: "'w services \<Rightarrow> inputData \<Rightarrow> 'w ext \<Rightarrow> (error + match) \<times> 'w ext" where
  "call_inject svc d e =
     (let r = inject svc (world e) d
      in (fst r, \<lparr>world = snd r, calls = calls e @ [CInject d]\<rparr>))"

definition call_useAllSources ::
  "'w services \<Rightarrow> checkedContract \<Rightarrow> pathBuffer list \<Rightarrow> 'w ext
    \<Rightarrow> (error + checkedContract) \<times> 'w ext" where
  "call_useAllSources svc c pbs e =
     (let r = useAllSources svc (world e) c pbs
      in (fst r, \<lparr>world = snd r, calls = calls e @ [CUseAllSources c pbs]\<rparr>))"

text \<open>
  The second attempt, inside the \<^verbatim>\<open>if (match.status === "extra-file-input-bug")\<close>:
  \<^verbatim>\<open>Object.values\<close> of an absent \<^verbatim>\<open>session.inputFiles\<close> throws a TypeError; the result
  of the second \<^verbatim>\<open>inject\<close> replaces the first only when it is perfect or partial.
\<close>

definition retry ::
  "'w services \<Rightarrow> session \<Rightarrow> inputData \<Rightarrow> match \<Rightarrow> 'w ext \<Rightarrow> (error + match) \<times> 'w ext" where
  "retry svc s d m e =
     (case inputFiles s of
        None \<Rightarrow> (Inl (TypeError ''Cannot convert undefined or null to object''), e)
      | Some files \<Rightarrow>
          (let pbs = toPathBuffers (fromBase64 svc) files;
               r2 = call_useAllSources svc (i_contract d) pbs e
           in case fst r2 of
                Inl err \<Rightarrow> (Inl err, snd r2)
              | Inr contractWithAllSources \<Rightarrow>
                  (let r3 = call_inject svc (d\<lparr>i_contract := contractWithAllSources\<rparr>) (snd r2)
                   in case fst r3 of
                        Inl err \<Rightarrow> (Inl err, snd r3)
                      | Inr tempMatch \<Rightarrow>
                          (if m_status tempMatch = Some ''perfect''
                              \<or> m_status tempMatch = Some ''partial''
                           then (Inr tempMatch, snd r3)
                           else (Inr m, snd r3)))))"

text \<open>The \<^verbatim>\<open>try\<close> block: the first \<^verbatim>\<open>inject\<close> and, on extra-file-input-bug, the retry.\<close>

definition attempt ::
  "'w services \<Rightarrow> session \<Rightarrow> inputData \<Rightarrow> 'w ext \<Rightarrow> (error + match) \<times> 'w ext" where
  "attempt svc s d e =
     (let r1 = call_inject svc d e
      in case fst r1 of
           Inl err \<Rightarrow> (Inl err, snd r1)
         | Inr m \<Rightarrow>
             (if m_status m = Some ''extra-file-input-bug''
              then retry svc s d m (snd r1)
              else (Inr m, snd r1)))"

text \<open>The \<^verbatim>\<open>catch\<close> block turns whatever the \<^verbatim>\<open>try\<close> block threw into a match.\<close>

definition caught :: "(error + match) \<Rightarrow> match" where
  "caught r =
     (case r of
        Inl err \<Rightarrow>
          \<lparr>m_address = None, m_status = None, m_message = Some (message_of err),
           m_storageTimestamp = None\<rparr>
      | Inr m \<Rightarrow> m)"

text \<open>\<^verbatim>\<open>match.status || "error"\<close>\<close>

definition status_or_error :: "string option \<Rightarrow> string" where
  "status_or_error st = (case st of Some x \<Rightarrow> (if x \<noteq> [] then x else ''error'') | None \<Rightarrow> ''error'')"

definition record_match :: "match \<Rightarrow> contractWrapper \<Rightarrow> contractWrapper" where
  "record_match m cw =
     cw\<lparr>status := Some (status_or_error (m_status m)),
        statusMessage := m_message m,
        storageTimestamp := m_storageTimestamp m\<rparr>"

definition put_wrapper :: "string \<Rightarrow> contractWrapper \<Rightarrow> session \<Rightarrow> session" where
  "put_wrapper k cw s = s\<lparr>contractWrappers := Some (AList.update k cw (wrappers_of s))\<rparr>"

definition mkInputData :: "contractWrapper \<Rightarrow> inputData" where
  "mkInputData cw = \<lparr>i_addresses = [address cw], i_chain = chainId cw, i_contract = contract cw\<rparr>"

text \<open>
  One turn of the loop of \<^verbatim>\<open>verifyValidated\<close>, for the candidate stored under \<open>k\<close>. The
  dictionary the loop runs over holds the very objects of \<^verbatim>\<open>session.contractWrappers\<close>, so
  the candidate is read from and written back to the session. The first component of the
  result is the exception that leaves the loop, if any: \<^verbatim>\<open>findByAddress\<close> is called outside
  the \<^verbatim>\<open>try\<close> block.
\<close>

definition verifyOne ::
  "'w services \<Rightarrow> string \<Rightarrow> session \<times> 'w ext \<Rightarrow> error option \<times> session \<times> 'w ext" where
  "verifyOne svc k se =
     (let s = fst se; e = snd se in
      case map_of (wrappers_of s) k of
        None \<Rightarrow> (Some (TypeError ''Cannot read properties of undefined''), s, e)
      | Some cw0 \<Rightarrow>
          (let r = checkAndFetchMissing svc (contract cw0) e;
               cw = cw0\<lparr>contract := fst r\<rparr>;
               e1 = snd r;
               s1 = put_wrapper k cw s
           in if \<not> isVerifiable svc cw then (None, s1, e1)
              else
                (let d = mkInputData cw;
                     e2 = e1\<lparr>calls := calls e1 @ [CFindByAddress (address cw) (chainId cw)]\<rparr>
                 in case findByAddress svc (world e1) (address cw) (chainId cw) of
                      Inl err \<Rightarrow> (Some err, s1, e2)
                    | Inr found \<Rightarrow>
                        (case found of
                           m # ms \<Rightarrow> (None, put_wrapper k (record_match m cw) s1, e2)
                         | [] \<Rightarrow>
                             (let a = attempt svc s1 d e2
                              in (None, put_wrapper k (record_match (caught (fst a)) cw) s1,
                                  snd a))))))"

fun verifyValidated ::
  "'w services \<Rightarrow> string list \<Rightarrow> session \<times> 'w ext \<Rightarrow> error option \<times> session \<times> 'w ext" where
  "verifyValidated svc [] se = (None, fst se, snd se)"
| "verifyValidated svc (k # ids) se =
     (case verifyOne svc k se of
        (Some err, s, e) \<Rightarrow> (Some err, s, e)
      | (None, s, e) \<Rightarrow> verifyValidated svc ids (s, e))"

section \<open>The session endpoints\<close>









section \<open>The legacy endpoint\<close>

text \<open>
  What \<^verbatim>\<open>legacyVerifyEndpoint\<close> sends: \<^verbatim>\<open>res.send({ result })\<close> or, from its \<^verbatim>\<open>catch\<close>,
  \<^verbatim>\<open>res.status(500).send({ error })\<close>.
\<close>

datatype response =
    SendResult "match list"
  | SendError string

text \<open>
  \<^verbatim>\<open>legacyVerifyEndpoint\<close> from its \<^verbatim>\<open>inputData\<close> on (lines 455 to 479): \<open>d\<close> is the input
  data made of the chosen contract, the addresses and the chain of the request, \<open>files\<close>
  the files of the request. The result is the first response sent, the one the client gets:
  after a perfect retry the code goes on to a second \<^verbatim>\<open>res.send\<close> on the same response.
\<close>

definition legacyVerifyEndpoint ::
  "'w services \<Rightarrow> inputData \<Rightarrow> pathBuffer list \<Rightarrow> 'w ext \<Rightarrow> response \<times> 'w ext" where
  "legacyVerifyEndpoint svc d files e =
     (let r1 = call_inject svc d e
      in case fst r1 of
           Inl err \<Rightarrow> (SendError (message_of err), snd r1)
         | Inr result \<Rightarrow>
             (if m_status result = Some ''extra-file-input-bug''
              then (let r2 = call_useAllSources svc (i_contract d) files (snd r1)
                    in case fst r2 of
                         Inl err \<Rightarrow> (SendError (message_of err), snd r2)
                       | Inr contractWithAllSources \<Rightarrow>
                           (let r3 = call_inject svc (d\<lparr>i_contract := contractWithAllSources\<rparr>)
                                       (snd r2)
                            in case fst r3 of
                                 Inl err \<Rightarrow> (SendError (message_of err), snd r3)
                               | Inr tempResult \<Rightarrow>
                                   (if m_status tempResult = Some ''perfect''
                                    then (SendResult [tempResult], snd r3)
                                    else (SendResult [result], snd r3))))
              else (SendResult [result], snd r1)))"

section \<open>The batch lookup: \<^verbatim>\<open>checkAllByAddresses\<close>\<close>

text \<open>
  An element of the answer: either \<^verbatim>\<open>{address, chainIds: [{chainId, status}, ...]}\<close> or
  \<^verbatim>\<open>{address, status: "false"}\<close>.
\<close>

record checkResult =
  r_address :: string
  r_status :: "string option"
  r_chainIds :: "(string \<times> string option) list option"

text \<open>
  \<^verbatim>\<open>map.get(address).chainIds.push(...)\<close>: on an entry without \<^verbatim>\<open>chainIds\<close> the call throws
  a TypeError (the result \<open>None\<close>), which the \<^verbatim>\<open>catch\<close> of the loop swallows.
\<close>

definition push_chain :: "string \<Rightarrow> string option \<Rightarrow> checkResult \<Rightarrow> checkResult option" where
  "push_chain c st r =
     (case r_chainIds r of
        None \<Rightarrow> None
      | Some cs \<Rightarrow> Some (r\<lparr>r_chainIds := Some (cs @ [(c, st)])\<rparr>))"

text \<open>
  The \<^verbatim>\<open>try\<close> block of the inner loop: the map as the block leaves it, and the exception that
  ended it, if any. \<^verbatim>\<open>lookup_chain\<close> adds the \<^verbatim>\<open>catch\<close>, which ignores the exception.
\<close>

definition lookup_chain_try ::
  "'w services \<Rightarrow> 'w \<Rightarrow> string \<Rightarrow> (string \<times> checkResult) list \<Rightarrow> string
    \<Rightarrow> error option \<times> (string \<times> checkResult) list" where
  "lookup_chain_try svc w a m c =
     (case findAllByAddress svc w a c of
        Inl err \<Rightarrow> (Some err, m)
      | Inr found \<Rightarrow>
          (case found of
             [] \<Rightarrow> (None, m)
           | f # fs \<Rightarrow>
               (let m1 = (if map_of m a = None
                          then AList.update a \<lparr>r_address = a, r_status = None, r_chainIds = Some []\<rparr> m
                          else m)
                in case map_of m1 a of
                     None \<Rightarrow> (Some (TypeError ''Cannot read properties of undefined''), m1)
                   | Some r \<Rightarrow>
                       (case push_chain c (m_status f) r of
                          None \<Rightarrow> (Some (TypeError ''Cannot read properties of undefined''), m1)
                        | Some r' \<Rightarrow> (None, AList.update a r' m1)))))"

definition lookup_chain ::
  "'w services \<Rightarrow> 'w \<Rightarrow> string \<Rightarrow> (string \<times> checkResult) list \<Rightarrow> string
    \<Rightarrow> (string \<times> checkResult) list" where
  "lookup_chain svc w a m c = snd (lookup_chain_try svc w a m c)"

definition lookup_address ::
  "'w services \<Rightarrow> 'w \<Rightarrow> string list \<Rightarrow> (string \<times> checkResult) list \<Rightarrow> string
    \<Rightarrow> (string \<times> checkResult) list" where
  "lookup_address svc w chainIds m a =
     (let m1 = foldl (lookup_chain svc w a) m chainIds
      in if map_of m1 a = None
         then AList.update a \<lparr>r_address = a, r_status = Some ''false'', r_chainIds = None\<rparr> m1
         else m1)"

definition checkAllByAddresses ::
  "'w services \<Rightarrow> 'w \<Rightarrow> string list \<Rightarrow> string list \<Rightarrow> checkResult list" where
  "checkAllByAddresses svc w addresses chainIds =
     map snd (foldl (lookup_address svc w chainIds) [] addresses)"

section \<open>Example sessions and services\<close>

text \<open>Concrete inputs on which the theorems below are evaluated.\<close>

definition empty_session :: session where
  "empty_session = \<lparr>inputFiles = None, contractWrappers = None, unusedSources = None\<rparr>"

text \<open>A file whose encoded content is 30 MiB long, and a session that already holds it.\<close>

definition big_content :: string where
  "big_content = replicate (30 * 1024 * 1024) (CHR ''A'')"

definition big_file :: pathContent where
  "big_file = \<lparr>pc_path = ''Big.sol'', pc_content = big_content\<rparr>"

definition big_session :: "(string \<Rightarrow> string) \<Rightarrow> session" where
  "big_session gid =
     \<lparr>inputFiles = Some [(gid big_content, big_file)], contractWrappers = None,
      unusedSources = None\<rparr>"

definition small_file :: pathContent where
  "small_file = \<lparr>pc_path = ''A.sol'', pc_content = ''Y29udHJhY3QgQSB7fQ==''\<rparr>"

text \<open>
  Stand-ins for the collaborators. The world is the store of confirmed matches, read by
  \<^verbatim>\<open>findByAddress\<close>. The validation service takes the file named \<^verbatim>\<open>metadata.json\<close> as
  the metadata of one contract that needs \<^verbatim>\<open>A.sol\<close> and \<^verbatim>\<open>B.sol\<close>, and throws when there is
  none; the verification service answers extra-file-input-bug to a contract with fewer than
  two sources and perfect otherwise; chain \<^verbatim>\<open>0\<close> makes \<^verbatim>\<open>findAllByAddress\<close> throw.
  \<^verbatim>\<open>fetchMissing\<close> finds every missing source.
\<close>

type_synonym store = "((string option \<times> string option) \<times> match) list"

definition demo_checkFiles :: "pathBuffer list \<Rightarrow> error + checkedContract list \<times> string list" where
  "demo_checkFiles pbs =
     (case filter (\<lambda>pb. pb_path pb = ''metadata.json'') pbs of
        [] \<Rightarrow> Inl (ServiceError ''Metadata file not found'')
      | md # rest \<Rightarrow>
          Inr ([\<lparr>metadataRaw = pb_buffer md, c_name = ''A'', compilerVersion = Some ''0.8.17'',
                 solidity = map (\<lambda>pb. (pb_path pb, pb_buffer pb))
                              (filter (\<lambda>pb. pb_path pb \<in> {''A.sol'', ''B.sol''}) pbs),
                 missing = map (\<lambda>p. (p, ''keccak256''))
                              (filter (\<lambda>p. p \<notin> set (map pb_path pbs)) [''A.sol'', ''B.sol'']),
                 invalid = []\<rparr>],
               map pb_path (filter (\<lambda>pb. pb_path pb \<notin> {''metadata.json'', ''A.sol'', ''B.sol''}) pbs)))"

definition demo_inject :: "inputData \<Rightarrow> match" where
  "demo_inject d =
     \<lparr>m_address = (case i_addresses d of [] \<Rightarrow> None | a # as \<Rightarrow> a),
      m_status = Some (if length (solidity (i_contract d)) < 2
                       then ''extra-file-input-bug'' else ''perfect''),
      m_message = None,
      m_storageTimestamp = Some (length (solidity (i_contract d)))\<rparr>"

definition demo_services :: "store services" where
  "demo_services =
     \<lparr>generateId = (\<lambda>c. ''0x'' @ c),
      isVerifiable = isVerifiable_spec,
      isValid = (\<lambda>c. missing c = [] \<and> invalid c = []),
      fromBase64 = (\<lambda>c. c),
      fetchMissing =
        (\<lambda>w c. (c\<lparr>solidity := solidity c @ map (\<lambda>pm. (fst pm, ''fetched'')) (missing c),
                   missing := []\<rparr>, w)),
      findByAddress = (\<lambda>w a c. Inr (map snd (filter (\<lambda>x. fst x = (a, c)) w))),
      findAllByAddress =
        (\<lambda>w a c. if c = ''0'' then Inl (ServiceError ''Chain 0 is not supported'')
                  else Inr (map snd (filter (\<lambda>x. fst x = (Some a, Some c)) w))),
      inject = (\<lambda>w d. (Inr (demo_inject d), w)),
      useAllSources =
        (\<lambda>w c pbs. (Inr (c\<lparr>solidity := map (\<lambda>pb. (pb_path pb, pb_buffer pb)) pbs\<rparr>), w)),
      checkFiles = (\<lambda>w pbs. (demo_checkFiles pbs, w))\<rparr>"

definition demo_ext :: "store ext" where
  "demo_ext = \<lparr>world = [], calls = []\<rparr>"

definition metadata_file :: pathContent where
  "metadata_file = \<lparr>pc_path = ''metadata.json'', pc_content = ''e30=''\<rparr>"

definition b_file :: pathContent where
  "b_file = \<lparr>pc_path = ''B.sol'', pc_content = ''Qg==''\<rparr>"

definition notes_file :: pathContent where
  "notes_file = \<lparr>pc_path = ''notes.txt'', pc_content = ''bm90ZXM=''\<rparr>"


text \<open>
  A candidate that waits for \<^verbatim>\<open>B.sol\<close>; the first upload of metadata and \<^verbatim>\<open>A.sol\<close> into
  the empty session, and the assembly pass of a second upload after it; a session that holds
  all three files; a session whose files lack the metadata.
\<close>

definition demo_id :: string where
  "demo_id = ''0xe30=''"



definition pending_wrapper :: contractWrapper where
  "pending_wrapper =
     \<lparr>contract = \<lparr>metadataRaw = ''e30='', c_name = ''A'', compilerVersion = Some ''0.8.17'',
                  solidity = [(''A.sol'', ''Y29udHJhY3QgQSB7fQ=='')],
                  missing = [(''B.sol'', ''keccak256'')], invalid = []\<rparr>,
      address = None, chainId = None, status = None, statusMessage = None,
      storageTimestamp = None\<rparr>"


definition orphan_session :: session where
  "orphan_session =
     \<lparr>inputFiles = Some [(''0xY29udHJhY3QgQSB7fQ=='', small_file), (''0xbm90ZXM='', notes_file)],
      contractWrappers = Some [(demo_id, pending_wrapper)],
      unusedSources = None\<rparr>"

text \<open>
  A complete candidate bound to address \<^verbatim>\<open>0xabc\<close> on chain \<^verbatim>\<open>1\<close>, in a session that holds
  its one source, and in a session that holds a second file as well; a store with a confirmed
  match for that address and chain.
\<close>

definition verifiable_wrapper :: contractWrapper where
  "verifiable_wrapper =
     \<lparr>contract = \<lparr>metadataRaw = ''e30='', c_name = ''A'', compilerVersion = Some ''0.8.17'',
                  solidity = [(''A.sol'', ''Y29udHJhY3QgQSB7fQ=='')],
                  missing = [], invalid = []\<rparr>,
      address = Some ''0xabc'', chainId = Some ''1'', status = None, statusMessage = None,
      storageTimestamp = None\<rparr>"

definition lonely_session :: session where
  "lonely_session =
     \<lparr>inputFiles = Some [(''0xY29udHJhY3QgQSB7fQ=='', small_file)],
      contractWrappers = Some [(demo_id, verifiable_wrapper)],
      unusedSources = Some []\<rparr>"

definition full_session :: session where
  "full_session =
     \<lparr>inputFiles = Some [(''0xY29udHJhY3QgQSB7fQ=='', small_file), (''0xQg=='', b_file)],
      contractWrappers = Some [(demo_id, verifiable_wrapper)],
      unusedSources = Some []\<rparr>"

definition stored_match :: match where
  "stored_match =
     \<lparr>m_address = Some ''0xabc'', m_status = Some ''perfect'', m_message = None,
      m_storageTimestamp = Some 7\<rparr>"

definition verified_ext :: "store ext" where
  "verified_ext = \<lparr>world = [((Some ''0xabc'', Some ''1''), stored_match)], calls = []\<rparr>"

text \<open>
  What the batch lookup is to answer. The hits of an address are the requested chains, in
  order, on which the lookup returns a non-empty list, each with the status of its first match.
  An address without hits is answered with status \<^verbatim>\<open>"false"\<close>, an address with hits with its
  hits, once for every time the request names the address.
\<close>

definition falseResult :: "string \<Rightarrow> checkResult" where
  "falseResult a = \<lparr>r_address = a, r_status = Some ''false'', r_chainIds = None\<rparr>"

definition hit :: "'w services \<Rightarrow> 'w \<Rightarrow> string \<Rightarrow> string \<Rightarrow> (string \<times> string option) list" where
  "hit svc w a c =
     (case findAllByAddress svc w a c of
        Inl err \<Rightarrow> []
      | Inr found \<Rightarrow> (case found of [] \<Rightarrow> [] | f # fs \<Rightarrow> [(c, m_status f)]))"

definition hits ::
  "'w services \<Rightarrow> 'w \<Rightarrow> string \<Rightarrow> string list \<Rightarrow> (string \<times> string option) list" where
  "hits svc w a cs = concat (map (hit svc w a) cs)"

definition answer :: "'w services \<Rightarrow> 'w \<Rightarrow> string list \<Rightarrow> string \<Rightarrow> nat \<Rightarrow> checkResult" where
  "answer svc w cs a n =
     (if hits svc w a cs = [] then falseResult a
      else \<lparr>r_address = a, r_status = None,
            r_chainIds = Some (concat (replicate n (hits svc w a cs)))\<rparr>)"

text \<open>What the inner loop does to the map, given the hits it meets.\<close>

definition add_hits ::
  "string \<Rightarrow> (string \<times> string option) list \<Rightarrow> (string \<times> checkResult) list
    \<Rightarrow> (string \<times> checkResult) list" where
  "add_hits a hs m =
     (if hs = [] then m
      else case map_of m a of
             None \<Rightarrow> AList.update a \<lparr>r_address = a, r_status = None, r_chainIds = Some hs\<rparr> m
           | Some r \<Rightarrow>
               (case r_chainIds r of
                  None \<Rightarrow> m
                | Some cs \<Rightarrow> AList.update a (r\<lparr>r_chainIds := Some (cs @ hs)\<rparr>) m))"

text \<open>
  The invariant of the outer loop: after the addresses \<open>seen\<close> the map has distinct keys, and
  holds under each of them the answer for it.
\<close>

definition answered ::
  "'w services \<Rightarrow> 'w \<Rightarrow> string list \<Rightarrow> string list \<Rightarrow> (string \<times> checkResult) list \<Rightarrow> bool" where
  "answered svc w cs seen m =
     (distinct (map fst m)
      \<and> (\<forall>x. map_of m x =
             (if x \<in> set seen then Some (answer svc w cs x (count_list seen x)) else None)))"








text \<open>
  Services whose \<^verbatim>\<open>useAllSources\<close> throws, and services whose verification answers partial
  where the stand-in answers perfect; the input data and the files of a legacy request.
\<close>

definition failing_expand :: "store \<Rightarrow> checkedContract \<Rightarrow> pathBuffer list \<Rightarrow> (error + checkedContract) \<times> store" where
  "failing_expand w c pbs = (Inl (ServiceError ''Cannot expand the contract''), w)"

definition broken_services :: "store services" where
  "broken_services = demo_services\<lparr>useAllSources := failing_expand\<rparr>"

definition partial_inject :: "store \<Rightarrow> inputData \<Rightarrow> (error + match) \<times> store" where
  "partial_inject w d =
     (Inr \<lparr>m_address = (case i_addresses d of [] \<Rightarrow> None | a # as \<Rightarrow> a),
           m_status = Some (if length (solidity (i_contract d)) < 2
                            then ''extra-file-input-bug'' else ''partial''),
           m_message = None,
           m_storageTimestamp = None\<rparr>, w)"

definition partial_services :: "store services" where
  "partial_services = demo_services\<lparr>inject := partial_inject\<rparr>"

definition legacy_input :: inputData where
  "legacy_input = mkInputData verifiable_wrapper"

definition legacy_files :: "pathBuffer list" where
  "legacy_files =
     [\<lparr>pb_path = ''A.sol'', pb_buffer = ''Y29udHJhY3QgQSB7fQ==''\<rparr>,
      \<lparr>pb_path = ''B.sol'', pb_buffer = ''Qg==''\<rparr>]"

text \<open>
  The statuses a response carries; the contract of the bound candidate expanded with the two
  files of the legacy request.
\<close>

definition response_statuses :: "response \<Rightarrow> string option list" where
  "response_statuses r = (case r of SendResult ms \<Rightarrow> map m_status ms | SendError msg \<Rightarrow> [])"

definition legacy_expanded :: checkedContract where
  "legacy_expanded =
     (contract verifiable_wrapper)
       \<lparr>solidity := [(''A.sol'', ''Y29udHJhY3QgQSB7fQ==''), (''B.sol'', ''Qg=='')]\<rparr>"

section \<open>Properties of the file store\<close>

lemma saveFiles_over:
  "stored_size (files_of s) + batch_size pcs > MAX_SESSION_SIZE \<Longrightarrow>
   saveFiles gid pcs s = (Inl (PayloadTooLargeError too_much_msg), s\<lparr>inputFiles := Some (files_of s)\<rparr>)"
  by (simp add: saveFiles_def Let_def)

lemma saveFiles_under:
  "\<not> stored_size (files_of s) + batch_size pcs > MAX_SESSION_SIZE \<Longrightarrow>
   saveFiles gid pcs s =
     (Inr (snd (foldl (saveFiles_step gid) (files_of s, 0) pcs)),
      s\<lparr>inputFiles := Some (fst (foldl (saveFiles_step gid) (files_of s, 0) pcs))\<rparr>)"
  by (simp add: saveFiles_def Let_def)

lemma length_big_content: "length big_content = 31457280"
  by (simp add: big_content_def)






lemma files_of_inputFiles [simp]: "files_of (s\<lparr>inputFiles := Some fs\<rparr>) = fs"
  by (simp add: files_of_def)


text \<open>
  C5. A call of \<^verbatim>\<open>saveFiles\<close> whose batch, added to what the session holds, exceeds the cap
  of 50 MiB throws the capacity error and admits no file: the session it leaves has the files
  it had (an absent dictionary has become an empty one) and the same candidates and unused
  paths. A call within the cap returns a count.
\<close>

theorem saveFiles_capacity_atomic:
  "(MAX_SESSION_SIZE < stored_size (files_of s) + batch_size pcs \<longrightarrow>
      saveFiles gid pcs s =
        (Inl (PayloadTooLargeError too_much_msg), s\<lparr>inputFiles := Some (files_of s)\<rparr>)
      \<and> files_of (snd (saveFiles gid pcs s)) = files_of s
      \<and> contractWrappers (snd (saveFiles gid pcs s)) = contractWrappers s
      \<and> unusedSources (snd (saveFiles gid pcs s)) = unusedSources s)
   \<and> (stored_size (files_of s) + batch_size pcs \<le> MAX_SESSION_SIZE \<longrightarrow>
        (\<exists>n. fst (saveFiles gid pcs s) = Inr n))
   \<and> MAX_SESSION_SIZE = 52428800"
  by (simp add: saveFiles_over saveFiles_under MAX_SESSION_SIZE_def)

text \<open>The same at a session of 30 MiB, for a batch of 30 MiB and for a small one.\<close>

theorem saveFiles_capacity_atomic_witness:
  "saveFiles (\<lambda>c. c) [big_file] (big_session (\<lambda>c. c)) =
     (Inl (PayloadTooLargeError too_much_msg), big_session (\<lambda>c. c))
   \<and> (\<exists>n. fst (saveFiles (\<lambda>c. c) [small_file] (big_session (\<lambda>c. c))) = Inr n)"
proof -
  have a: "MAX_SESSION_SIZE < stored_size (files_of (big_session (\<lambda>c. c))) + batch_size [big_file]"
    by (simp add: MAX_SESSION_SIZE_def stored_size_def batch_size_def files_of_def
        big_session_def big_file_def length_big_content)
  have b: "stored_size (files_of (big_session (\<lambda>c. c))) + batch_size [small_file] \<le> MAX_SESSION_SIZE"
    by (simp add: MAX_SESSION_SIZE_def stored_size_def batch_size_def files_of_def
        big_session_def big_file_def small_file_def length_big_content)
  have c: "(big_session (\<lambda>c. c))\<lparr>inputFiles := Some (files_of (big_session (\<lambda>c. c)))\<rparr> = big_session (\<lambda>c. c)"
    by (simp add: big_session_def files_of_def)
  show ?thesis
    using saveFiles_capacity_atomic[of "big_session (\<lambda>c. c)" "[big_file]" "\<lambda>c. c"]
      saveFiles_capacity_atomic[of "big_session (\<lambda>c. c)" "[small_file]" "\<lambda>c. c"] a b c
    by simp
qed

text \<open>
  C10. The size \<^verbatim>\<open>saveFiles\<close> checks is the sum over every stored file plus the sum over
  every incoming file, present or not, taken before the ids are compared. So there is a session
  within the cap and a batch of files all present in it, for which the loop would count no new
  file, on which the call throws the capacity error.
\<close>

theorem saveFiles_counts_present_files:
  "(fst (saveFiles gid pcs s) = Inl (PayloadTooLargeError too_much_msg)) =
     (MAX_SESSION_SIZE <
        sum_list (map (\<lambda>(k, pc). length (pc_content pc)) (files_of s))
        + sum_list (map (\<lambda>pc. length (pc_content pc)) pcs))
   \<and> (\<exists>s' pcs'.
         (\<forall>pc \<in> set pcs'. gid (pc_content pc) \<in> set (map fst (files_of s')))
         \<and> stored_size (files_of s') \<le> MAX_SESSION_SIZE
         \<and> foldl (saveFiles_step gid) (files_of s', 0) pcs' = (files_of s', 0)
         \<and> fst (saveFiles gid pcs' s') = Inl (PayloadTooLargeError too_much_msg))"
proof -
  have 1: "(fst (saveFiles gid pcs s) = Inl (PayloadTooLargeError too_much_msg)) =
     (MAX_SESSION_SIZE <
        sum_list (map (\<lambda>(k, pc). length (pc_content pc)) (files_of s))
        + sum_list (map (\<lambda>pc. length (pc_content pc)) pcs))"
    by (simp add: saveFiles_def Let_def stored_size_def batch_size_def)
  have 2: "(\<forall>pc \<in> set [big_file]. gid (pc_content pc) \<in> set (map fst (files_of (big_session gid))))
         \<and> stored_size (files_of (big_session gid)) \<le> MAX_SESSION_SIZE
         \<and> foldl (saveFiles_step gid) (files_of (big_session gid), 0) [big_file] = (files_of (big_session gid), 0)
         \<and> fst (saveFiles gid [big_file] (big_session gid)) = Inl (PayloadTooLargeError too_much_msg)"
    by (simp add: saveFiles_def Let_def stored_size_def batch_size_def files_of_def
        big_session_def big_file_def length_big_content MAX_SESSION_SIZE_def saveFiles_step_def)
  from 1 2 show ?thesis by blast
qed

text \<open>The session of 30 MiB and its own file again.\<close>

theorem saveFiles_counts_present_files_witness:
  "fst (saveFiles (\<lambda>c. c) [big_file] (big_session (\<lambda>c. c))) = Inl (PayloadTooLargeError too_much_msg)
   \<and> foldl (saveFiles_step (\<lambda>c. c)) (files_of (big_session (\<lambda>c. c)), 0) [big_file]
       = (files_of (big_session (\<lambda>c. c)), 0)"
proof -
  have a: "MAX_SESSION_SIZE <
        sum_list (map (\<lambda>(k, pc). length (pc_content pc)) (files_of (big_session (\<lambda>c. c))))
        + sum_list (map (\<lambda>pc. length (pc_content pc)) [big_file])"
    by (simp add: MAX_SESSION_SIZE_def files_of_def big_session_def big_file_def length_big_content)
  have b: "foldl (saveFiles_step (\<lambda>c. c)) (files_of (big_session (\<lambda>c. c)), 0) [big_file]
       = (files_of (big_session (\<lambda>c. c)), 0)"
    by (simp add: files_of_def big_session_def big_file_def saveFiles_step_def)
  from a b show ?thesis
    using saveFiles_counts_present_files[of "\<lambda>c. c" "[big_file]" "big_session (\<lambda>c. c)"]
    by blast
qed




section \<open>Properties of the assembler\<close>

text \<open>The definitions that evaluating an example unfolds.\<close>

lemmas demo_defs =
  demo_services_def demo_checkFiles_def demo_inject_def demo_ext_def empty_session_def
  metadata_file_def small_file_def b_file_def notes_file_def demo_id_def
  isVerifiable_spec_def










lemma wrappers_of_updateUnused [simp]:
  "wrappers_of (updateUnused u (s\<lparr>contractWrappers := Some cws\<rparr>)) = cws"
  by (simp add: wrappers_of_def updateUnused_def)

lemma validateContracts_throws:
  "fst (checkFiles svc (world e) (toPathBuffers (fromBase64 svc) (files_of s))) = Inl err \<Longrightarrow>
   fst (validateContracts svc (s, e)) =
     updateUnused (map pb_path (toPathBuffers (fromBase64 svc) (files_of s))) s"
  by (simp add: validateContracts_def Let_def)

lemma paths_toPathBuffers: "map pb_path (toPathBuffers dec files) = map (\<lambda>(k, pc). pc_path pc) files"
  by (simp add: toPathBuffers_def split_def)

text \<open>
  C7. When \<^verbatim>\<open>checkFiles\<close> throws in \<^verbatim>\<open>validateContracts\<close>, the path of every file of the
  session (the batch handed to the service) is recorded as unused, and the candidates and the
  files of the session are as they were.
\<close>

theorem validateContracts_failure:
  assumes "fst (checkFiles svc (world e) (toPathBuffers (fromBase64 svc) (files_of s))) = Inl err"
  shows "unusedSources (fst (validateContracts svc (s, e)))
           = Some (map (\<lambda>(k, pc). pc_path pc) (files_of s))
         \<and> contractWrappers (fst (validateContracts svc (s, e))) = contractWrappers s
         \<and> inputFiles (fst (validateContracts svc (s, e))) = inputFiles s"
  using assms by (simp add: validateContracts_throws paths_toPathBuffers updateUnused_def)

text \<open>A session without metadata: the stand-in service throws.\<close>

theorem validateContracts_failure_witness:
  "unusedSources (fst (validateContracts demo_services (orphan_session, demo_ext)))
     = Some [''A.sol'', ''notes.txt'']
   \<and> contractWrappers (fst (validateContracts demo_services (orphan_session, demo_ext)))
     = Some [(demo_id, pending_wrapper)]"
proof -
  have a: "fst (checkFiles demo_services (world demo_ext)
             (toPathBuffers (fromBase64 demo_services) (files_of orphan_session)))
           = Inl (ServiceError ''Metadata file not found'')"
    by (simp add: demo_defs orphan_session_def files_of_def toPathBuffers_def)
  show ?thesis
    using validateContracts_failure[OF a]
    by (simp add: orphan_session_def files_of_def small_file_def notes_file_def)
qed






section \<open>Properties of the orchestrator\<close>

lemma injects_append [simp]: "injects (xs @ ys) = injects xs + injects ys"
  by (simp add: injects_def)

lemma injects_Nil [simp]: "injects [] = 0"
  by (simp add: injects_def)

lemma injects_Cons [simp]: "injects (c # cs) = (if is_inject c then 1 else 0) + injects cs"
  by (simp add: injects_def)

lemma wrappers_of_put [simp]: "wrappers_of (put_wrapper k cw s) = AList.update k cw (wrappers_of s)"
  by (simp add: put_wrapper_def wrappers_of_def)

lemma inputFiles_put [simp]: "inputFiles (put_wrapper k cw s) = inputFiles s"
  by (simp add: put_wrapper_def)

lemma map_of_put:
  "map_of (wrappers_of (put_wrapper k cw s)) k' = (if k' = k then Some cw else map_of (wrappers_of s) k')"
  by (simp add: AList.update_conv')

lemma checkAndFetchMissing_injects:
  "injects (calls (snd (checkAndFetchMissing svc c e))) = injects (calls e)"
  by (simp add: checkAndFetchMissing_def Let_def)

lemma call_inject_calls: "calls (snd (call_inject svc d e)) = calls e @ [CInject d]"
  by (simp add: call_inject_def Let_def)

lemma call_useAllSources_calls:
  "calls (snd (call_useAllSources svc c pbs e)) = calls e @ [CUseAllSources c pbs]"
  by (simp add: call_useAllSources_def Let_def)

lemma retry_injects:
  "injects (calls (snd (retry svc s d m e))) \<le> injects (calls e) + 1"
  by (simp add: retry_def Let_def call_inject_calls call_useAllSources_calls
      split: option.splits sum.splits)

lemma attempt_injects_upper:
  "injects (calls (snd (attempt svc s d e))) \<le> injects (calls e) + 2"
  using retry_injects[of svc s d _ "snd (call_inject svc d e)"]
  by (auto simp: attempt_def Let_def call_inject_calls split: sum.splits)

lemma attempt_injects_lower:
  "injects (calls e) + 1 \<le> injects (calls (snd (attempt svc s d e)))"
  by (auto simp: attempt_def retry_def Let_def call_inject_calls call_useAllSources_calls
      split: sum.splits option.splits)

lemma attempt_injects_only_retry:
  "\<not> (\<exists>m. fst (inject svc (world e) d) = Inr m \<and> m_status m = Some ''extra-file-input-bug'') \<Longrightarrow>
   injects (calls (snd (attempt svc s d e))) = injects (calls e) + 1"
  by (auto simp: attempt_def Let_def call_inject_def split: sum.splits)

lemma verifyOne_injects:
  "injects (calls (snd (snd (verifyOne svc k (s, e))))) \<le> injects (calls e) + 2"
proof (cases "map_of (wrappers_of s) k")
  case None
  then show ?thesis by (simp add: verifyOne_def)
next
  case (Some cw0)
  let ?r = "checkAndFetchMissing svc (contract cw0) e"
  let ?cw = "cw0\<lparr>contract := fst ?r\<rparr>"
  let ?e2 = "(snd ?r)\<lparr>calls := calls (snd ?r) @ [CFindByAddress (address ?cw) (chainId ?cw)]\<rparr>"
  have e2: "injects (calls ?e2) = injects (calls e)"
    by (simp add: checkAndFetchMissing_injects)
  have att: "injects (calls (snd (attempt svc (put_wrapper k ?cw s) (mkInputData ?cw) ?e2)))
               \<le> injects (calls e) + 2"
    using attempt_injects_upper[of svc "put_wrapper k ?cw s" "mkInputData ?cw" ?e2] e2 by simp
  show ?thesis
    using Some att e2
    by (simp add: verifyOne_def Let_def checkAndFetchMissing_injects
        split: sum.splits list.splits)
qed

lemma verifyValidated_injects:
  "injects (calls (snd (snd (verifyValidated svc ks se)))) \<le> injects (calls (snd se)) + 2 * length ks"
proof (induction ks arbitrary: se)
  case Nil
  then show ?case by simp
next
  case (Cons k ks)
  obtain s e where se: "se = (s, e)" by (cases se)
  obtain r s1 e1 where v: "verifyOne svc k (s, e) = (r, s1, e1)" by (cases "verifyOne svc k (s, e)")
  have one: "injects (calls e1) \<le> injects (calls e) + 2"
    using verifyOne_injects[of svc k s e] v by simp
  show ?case
  proof (cases r)
    case None
    then show ?thesis
      using Cons.IH[of "(s1, e1)"] one v se by simp
  next
    case (Some err)
    then show ?thesis using one v se by simp
  qed
qed

text \<open>
  C1. For a candidate that passes the gate (after the attempt to fetch missing sources), when
  \<^verbatim>\<open>findByAddress\<close> for its address and chain id returns a non-empty list, the loop turn
  records the first stored match on the candidate: its status (\<^verbatim>\<open>"error"\<close> in place of a
  falsy one, so the stored status itself for a confirmed match), its message and its storage
  timestamp. The only call after the fetch is the lookup: \<^verbatim>\<open>inject\<close> is not called and the
  world is untouched.
\<close>

theorem verifyOne_adopts_stored_match:
  assumes wrapper: "map_of (wrappers_of s) k = Some cw0"
    and fetch: "checkAndFetchMissing svc (contract cw0) e = (c1, e1)"
    and gate: "isVerifiable svc (cw0\<lparr>contract := c1\<rparr>)"
    and found: "findByAddress svc (world e1) (address cw0) (chainId cw0) = Inr (m # ms)"
  shows "\<exists>s' e'. verifyOne svc k (s, e) = (None, s', e')
           \<and> map_of (wrappers_of s') k =
               Some (cw0\<lparr>contract := c1, status := Some (status_or_error (m_status m)),
                         statusMessage := m_message m,
                         storageTimestamp := m_storageTimestamp m\<rparr>)
           \<and> (truthy (m_status m) \<longrightarrow>
                map_option status (map_of (wrappers_of s') k) = Some (m_status m))
           \<and> calls e' = calls e1 @ [CFindByAddress (address cw0) (chainId cw0)]
           \<and> world e' = world e1
           \<and> injects (calls e') = injects (calls e)"
proof -
  have inj: "injects (calls e1) = injects (calls e)"
    using checkAndFetchMissing_injects[of svc "contract cw0" e] fetch by simp
  have st: "truthy (m_status m) \<Longrightarrow> Some (status_or_error (m_status m)) = m_status m"
    by (cases "m_status m") (simp_all add: status_or_error_def)
  show ?thesis
    using wrapper fetch gate found inj st
    by (simp add: verifyOne_def Let_def record_match_def AList.update_conv')
qed

text \<open>The bound candidate against the store that holds a perfect match for it.\<close>

theorem verifyOne_adopts_stored_match_witness:
  "\<exists>s' e'. verifyOne demo_services demo_id (lonely_session, verified_ext) = (None, s', e')
     \<and> map_option status (map_of (wrappers_of s') demo_id) = Some (Some ''perfect'')
     \<and> map_option storageTimestamp (map_of (wrappers_of s') demo_id) = Some (Some 7)
     \<and> calls e' = [CFindByAddress (Some ''0xabc'') (Some ''1'')]
     \<and> injects (calls e') = 0"
proof -
  have wrapper: "map_of (wrappers_of lonely_session) demo_id = Some verifiable_wrapper"
    by (simp add: lonely_session_def wrappers_of_def)
  have fetch: "checkAndFetchMissing demo_services (contract verifiable_wrapper) verified_ext
                 = (contract verifiable_wrapper, verified_ext)"
    by (simp add: checkAndFetchMissing_def demo_services_def verifiable_wrapper_def)
  have gate: "isVerifiable demo_services
                (verifiable_wrapper\<lparr>contract := contract verifiable_wrapper\<rparr>)"
    by (simp add: demo_services_def isVerifiable_spec_def verifiable_wrapper_def)
  have found: "findByAddress demo_services (world verified_ext) (address verifiable_wrapper)
                 (chainId verifiable_wrapper) = Inr (stored_match # [])"
    by (simp add: demo_services_def verified_ext_def verifiable_wrapper_def)
  have t: "truthy (m_status stored_match)"
    by (simp add: stored_match_def)
  from verifyOne_adopts_stored_match[OF wrapper fetch gate found] t
  obtain s' e' where
    r: "verifyOne demo_services demo_id (lonely_session, verified_ext) = (None, s', e')"
    and w: "map_of (wrappers_of s') demo_id =
               Some (verifiable_wrapper\<lparr>contract := contract verifiable_wrapper,
                         status := Some (status_or_error (m_status stored_match)),
                         statusMessage := m_message stored_match,
                         storageTimestamp := m_storageTimestamp stored_match\<rparr>)"
    and st: "map_option status (map_of (wrappers_of s') demo_id) = Some (m_status stored_match)"
    and c: "calls e' = calls verified_ext
              @ [CFindByAddress (address verifiable_wrapper) (chainId verifiable_wrapper)]"
    and i: "injects (calls e') = injects (calls verified_ext)"
    by blast
  have "map_option status (map_of (wrappers_of s') demo_id) = Some (Some ''perfect'')"
    using st by (simp add: stored_match_def)
  moreover have "map_option storageTimestamp (map_of (wrappers_of s') demo_id) = Some (Some 7)"
    using w by (simp add: stored_match_def)
  moreover have "calls e' = [CFindByAddress (Some ''0xabc'') (Some ''1'')]"
    using c by (simp add: verified_ext_def verifiable_wrapper_def)
  moreover have "injects (calls e') = 0"
    using i by (simp add: verified_ext_def)
  ultimately show ?thesis using r by blast
qed

text \<open>
  C4. One loop turn of \<^verbatim>\<open>verifyValidated\<close> calls \<^verbatim>\<open>inject\<close> at most twice, whatever the
  services answer, and a whole run at most twice per candidate. The \<^verbatim>\<open>try\<close> block calls it
  once or twice, and twice only if the first call returned extra-file-input-bug.
\<close>

theorem inject_at_most_twice:
  "injects (calls (snd (snd (verifyOne svc k (s, e))))) \<le> injects (calls e) + 2
   \<and> injects (calls (snd (snd (verifyValidated svc ks (s, e))))) \<le> injects (calls e) + 2 * length ks
   \<and> injects (calls e) + 1 \<le> injects (calls (snd (attempt svc s d e)))
   \<and> injects (calls (snd (attempt svc s d e))) \<le> injects (calls e) + 2
   \<and> (injects (calls (snd (attempt svc s d e))) = injects (calls e) + 2 \<longrightarrow>
        (\<exists>m. fst (inject svc (world e) d) = Inr m \<and> m_status m = Some ''extra-file-input-bug''))"
proof -
  have only: "injects (calls (snd (attempt svc s d e))) = injects (calls e) + 2 \<longrightarrow>
        (\<exists>m. fst (inject svc (world e) d) = Inr m \<and> m_status m = Some ''extra-file-input-bug'')"
  proof (rule impI, rule ccontr)
    assume two: "injects (calls (snd (attempt svc s d e))) = injects (calls e) + 2"
      and no: "\<not> (\<exists>m. fst (inject svc (world e) d) = Inr m \<and> m_status m = Some ''extra-file-input-bug'')"
    from attempt_injects_only_retry[OF no, of s] two show False by simp
  qed
  show ?thesis
    using verifyOne_injects[of svc k s e] verifyValidated_injects[of svc ks "(s, e)"]
      attempt_injects_lower[of e svc s d] attempt_injects_upper[of svc s d e] only
    by simp
qed

text \<open>
  The candidate with one source in the session with that one file: the retry answers
  extra-file-input-bug again, and there is no third call.
\<close>

theorem inject_at_most_twice_witness:
  "injects (calls (snd (snd (verifyOne demo_services demo_id (lonely_session, demo_ext))))) = 2
   \<and> map_option status
        (map_of (wrappers_of (fst (snd (verifyOne demo_services demo_id (lonely_session, demo_ext)))))
           demo_id) = Some (Some ''extra-file-input-bug'')"
proof -
  have "injects (calls (snd (snd (verifyOne demo_services demo_id (lonely_session, demo_ext))))) \<le> injects (calls demo_ext) + 2"
    using inject_at_most_twice[of demo_services demo_id lonely_session demo_ext] by blast
  then show ?thesis
    by (simp add: checkAndFetchMissing_def verifyOne_def put_wrapper_def
        call_inject_def call_useAllSources_def retry_def attempt_def caught_def status_or_error_def
        record_match_def mkInputData_def wrappers_of_def toPathBuffers_def
        demo_services_def demo_inject_def demo_ext_def demo_id_def small_file_def
        isVerifiable_spec_def
        lonely_session_def verifiable_wrapper_def Let_def)
qed

section \<open>Properties of the retry\<close>

lemma verifyOne_bug_cases:
  assumes wrapper: "map_of (wrappers_of s) k = Some cw0"
    and fetch: "checkAndFetchMissing svc (contract cw0) e = (c1, e1)"
    and gate: "isVerifiable svc (cw0\<lparr>contract := c1\<rparr>)"
    and nofound: "findByAddress svc (world e1) (address cw0) (chainId cw0) = Inr []"
    and first: "inject svc (world e1) (mkInputData (cw0\<lparr>contract := c1\<rparr>)) = (Inr m1, w2)"
    and bug: "m_status m1 = Some ''extra-file-input-bug''"
  shows "verifyOne svc k (s, e) =
    (None,
     put_wrapper k
       (record_match
          (caught (fst (retry svc (put_wrapper k (cw0\<lparr>contract := c1\<rparr>) s)
                          (mkInputData (cw0\<lparr>contract := c1\<rparr>)) m1
                          \<lparr>world = w2, calls = calls e1 @
                             [CFindByAddress (address cw0) (chainId cw0),
                              CInject (mkInputData (cw0\<lparr>contract := c1\<rparr>))]\<rparr>)))
          (cw0\<lparr>contract := c1\<rparr>))
       (put_wrapper k (cw0\<lparr>contract := c1\<rparr>) s),
     snd (retry svc (put_wrapper k (cw0\<lparr>contract := c1\<rparr>) s)
            (mkInputData (cw0\<lparr>contract := c1\<rparr>)) m1
            \<lparr>world = w2, calls = calls e1 @
               [CFindByAddress (address cw0) (chainId cw0),
                CInject (mkInputData (cw0\<lparr>contract := c1\<rparr>))]\<rparr>))"
  using wrapper fetch gate nofound first bug
  by (simp add: verifyOne_def attempt_def call_inject_def Let_def)

lemma status_after_record:
  "map_option status (map_of (wrappers_of (put_wrapper k (record_match m cw) s)) k)
     = Some (Some (status_or_error (m_status m)))"
  "map_option statusMessage (map_of (wrappers_of (put_wrapper k (record_match m cw) s)) k)
     = Some (m_message m)"
  by (simp_all add: AList.update_conv' record_match_def)

lemma caught_error:
  "m_status (caught (Inl err)) = None" "m_message (caught (Inl err)) = Some (message_of err)"
  "caught (Inr m) = m"
  by (simp_all add: caught_def)

lemma status_or_error_simps:
  "status_or_error None = ''error''"
  "status_or_error (Some ''perfect'') = ''perfect''"
  "status_or_error (Some ''partial'') = ''partial''"
  "status_or_error (Some ''extra-file-input-bug'') = ''extra-file-input-bug''"
  by (simp_all add: status_or_error_def)

lemma retry_no_files:
  "inputFiles s = None \<Longrightarrow>
   retry svc s d m e = (Inl (TypeError ''Cannot convert undefined or null to object''), e)"
  by (simp add: retry_def)

lemma retry_expand_throws:
  "inputFiles s = Some files \<Longrightarrow>
   useAllSources svc (world e) (i_contract d) (toPathBuffers (fromBase64 svc) files) = (Inl err, w3) \<Longrightarrow>
   retry svc s d m e =
     (Inl err, \<lparr>world = w3, calls = calls e @
        [CUseAllSources (i_contract d) (toPathBuffers (fromBase64 svc) files)]\<rparr>)"
  by (simp add: retry_def call_useAllSources_def Let_def)

lemma retry_second_throws:
  "inputFiles s = Some files \<Longrightarrow>
   useAllSources svc (world e) (i_contract d) (toPathBuffers (fromBase64 svc) files) = (Inr cAll, w3) \<Longrightarrow>
   inject svc w3 (d\<lparr>i_contract := cAll\<rparr>) = (Inl err, w4) \<Longrightarrow>
   retry svc s d m e =
     (Inl err, \<lparr>world = w4, calls = calls e @
        [CUseAllSources (i_contract d) (toPathBuffers (fromBase64 svc) files),
         CInject (d\<lparr>i_contract := cAll\<rparr>)]\<rparr>)"
  by (simp add: retry_def call_useAllSources_def call_inject_def Let_def)

lemma retry_second_returns:
  "inputFiles s = Some files \<Longrightarrow>
   useAllSources svc (world e) (i_contract d) (toPathBuffers (fromBase64 svc) files) = (Inr cAll, w3) \<Longrightarrow>
   inject svc w3 (d\<lparr>i_contract := cAll\<rparr>) = (Inr m2, w4) \<Longrightarrow>
   retry svc s d m e =
     (Inr (if m_status m2 = Some ''perfect'' \<or> m_status m2 = Some ''partial'' then m2 else m),
      \<lparr>world = w4, calls = calls e @
        [CUseAllSources (i_contract d) (toPathBuffers (fromBase64 svc) files),
         CInject (d\<lparr>i_contract := cAll\<rparr>)]\<rparr>)"
  by (simp add: retry_def call_useAllSources_def call_inject_def Let_def)

lemma legacy_retry_returns:
  "inject svc (world e) d = (Inr result, w2) \<Longrightarrow>
   m_status result = Some ''extra-file-input-bug'' \<Longrightarrow>
   useAllSources svc w2 (i_contract d) files = (Inr cAll, w3) \<Longrightarrow>
   inject svc w3 (d\<lparr>i_contract := cAll\<rparr>) = (Inr tempResult, w4) \<Longrightarrow>
   legacyVerifyEndpoint svc d files e =
     (SendResult [if m_status tempResult = Some ''perfect'' then tempResult else result],
      \<lparr>world = w4, calls = calls e @
         [CInject d, CUseAllSources (i_contract d) files, CInject (d\<lparr>i_contract := cAll\<rparr>)]\<rparr>)"
  by (simp add: legacyVerifyEndpoint_def call_useAllSources_def call_inject_def Let_def)

text \<open>
  C3, amended. Let the gate pass, no stored match exist and the first \<^verbatim>\<open>inject\<close> return
  extra-file-input-bug. The loop turn of \<^verbatim>\<open>verifyValidated\<close> then ends without exception and
  \<^item> with no file dictionary in the session it calls nothing more and records \<^verbatim>\<open>error\<close>;
  \<^item> otherwise it calls \<^verbatim>\<open>useAllSources\<close> with the candidate's contract and every file of the
    session; when that throws, there is no second \<^verbatim>\<open>inject\<close>, and \<^verbatim>\<open>error\<close> and the
    message are recorded;
  \<^item> when it returns, \<^verbatim>\<open>inject\<close> is called once more, with the expanded contract, and nothing
    after it; a throw records \<^verbatim>\<open>error\<close> and the message; a result records the retry's
    status when that is perfect or partial and extra-file-input-bug otherwise, which is the
    retry's status whenever that is perfect, partial or extra-file-input-bug.

  \<^verbatim>\<open>legacyVerifyEndpoint\<close>, when its retry returns, answers with the retry's result only if
  that is perfect, and with the first result otherwise.
\<close>

theorem verifyOne_retry:
  "(map_of (wrappers_of s) k = Some cw
    \<and> checkAndFetchMissing svc (contract cw) e = (cf, ef)
    \<and> isVerifiable svc (cw\<lparr>contract := cf\<rparr>)
    \<and> findByAddress svc (world ef) (address cw) (chainId cw) = Inr []
    \<and> inject svc (world ef) (mkInputData (cw\<lparr>contract := cf\<rparr>)) = (Inr mf, wa)
    \<and> m_status mf = Some ''extra-file-input-bug''
    \<longrightarrow>
    (\<exists>s' e'. verifyOne svc k (s, e) = (None, s', e')
       \<and> (inputFiles s = None \<longrightarrow>
             calls e' = calls ef @
               [CFindByAddress (address cw) (chainId cw),
                CInject (mkInputData (cw\<lparr>contract := cf\<rparr>))]
             \<and> world e' = wa
             \<and> map_option status (map_of (wrappers_of s') k) = Some (Some ''error''))
       \<and> (inputFiles s = Some files
            \<and> useAllSources svc wa cf (toPathBuffers (fromBase64 svc) files) = (Inl erra, wb)
           \<longrightarrow>
             calls e' = calls ef @
               [CFindByAddress (address cw) (chainId cw),
                CInject (mkInputData (cw\<lparr>contract := cf\<rparr>)),
                CUseAllSources cf (toPathBuffers (fromBase64 svc) files)]
             \<and> world e' = wb
             \<and> map_option status (map_of (wrappers_of s') k) = Some (Some ''error'')
             \<and> map_option statusMessage (map_of (wrappers_of s') k)
                 = Some (Some (message_of erra)))
       \<and> (inputFiles s = Some files
            \<and> useAllSources svc wa cf (toPathBuffers (fromBase64 svc) files) = (Inr cAll, wb)
           \<longrightarrow>
             calls e' = calls ef @
               [CFindByAddress (address cw) (chainId cw),
                CInject (mkInputData (cw\<lparr>contract := cf\<rparr>)),
                CUseAllSources cf (toPathBuffers (fromBase64 svc) files),
                CInject ((mkInputData (cw\<lparr>contract := cf\<rparr>))\<lparr>i_contract := cAll\<rparr>)]
             \<and> (inject svc wb ((mkInputData (cw\<lparr>contract := cf\<rparr>))\<lparr>i_contract := cAll\<rparr>)
                    = (Inl errb, wc)
                  \<longrightarrow> world e' = wc
                    \<and> map_option status (map_of (wrappers_of s') k) = Some (Some ''error'')
                    \<and> map_option statusMessage (map_of (wrappers_of s') k)
                        = Some (Some (message_of errb)))
             \<and> (inject svc wb ((mkInputData (cw\<lparr>contract := cf\<rparr>))\<lparr>i_contract := cAll\<rparr>)
                    = (Inr mr, wc)
                  \<longrightarrow> world e' = wc
                    \<and> map_option status (map_of (wrappers_of s') k) =
                        Some (if m_status mr = Some ''perfect'' \<or> m_status mr = Some ''partial''
                              then m_status mr else Some ''extra-file-input-bug'')
                    \<and> (m_status mr \<in> {Some ''perfect'', Some ''partial'',
                                        Some ''extra-file-input-bug''}
                         \<longrightarrow> map_option status (map_of (wrappers_of s') k)
                               = Some (m_status mr))))))
   \<and> (inject svc (world le) ld = (Inr result, lwa)
       \<and> m_status result = Some ''extra-file-input-bug''
       \<and> useAllSources svc lwa (i_contract ld) lfiles = (Inr lAll, lwb)
       \<and> inject svc lwb (ld\<lparr>i_contract := lAll\<rparr>) = (Inr tempResult, lwc)
       \<longrightarrow>
       legacyVerifyEndpoint svc ld lfiles le =
         (SendResult [if m_status tempResult = Some ''perfect'' then tempResult else result],
          \<lparr>world = lwc, calls = calls le @
             [CInject ld, CUseAllSources (i_contract ld) lfiles,
              CInject (ld\<lparr>i_contract := lAll\<rparr>)]\<rparr>))"
proof (intro conjI impI)
  assume h: "map_of (wrappers_of s) k = Some cw
    \<and> checkAndFetchMissing svc (contract cw) e = (cf, ef)
    \<and> isVerifiable svc (cw\<lparr>contract := cf\<rparr>)
    \<and> findByAddress svc (world ef) (address cw) (chainId cw) = Inr []
    \<and> inject svc (world ef) (mkInputData (cw\<lparr>contract := cf\<rparr>)) = (Inr mf, wa)
    \<and> m_status mf = Some ''extra-file-input-bug''"
  let ?cw = "cw\<lparr>contract := cf\<rparr>"
  let ?d = "mkInputData ?cw"
  let ?s1 = "put_wrapper k ?cw s"
  let ?e2 = "\<lparr>world = wa, calls = calls ef @
               [CFindByAddress (address cw) (chainId cw), CInject ?d]\<rparr>"
  define r where "r = retry svc ?s1 ?d mf ?e2"
  define s' where "s' = put_wrapper k (record_match (caught (fst r)) ?cw) ?s1"
  define st where "st = map_option status (map_of (wrappers_of s') k)"
  define msg where "msg = map_option statusMessage (map_of (wrappers_of s') k)"
  have v: "verifyOne svc k (s, e) = (None, s', snd r)"
    using h unfolding s'_def r_def by (simp add: verifyOne_bug_cases)
  have S: "st = Some (Some (status_or_error (m_status (caught (fst r)))))"
    unfolding st_def s'_def by (rule status_after_record(1))
  have M: "msg = Some (m_message (caught (fst r)))"
    unfolding msg_def s'_def by (rule status_after_record(2))
  have d: "i_contract ?d = cf" by (simp add: mkInputData_def)
  have bug: "m_status mf = Some ''extra-file-input-bug''" using h by simp
  have a: "inputFiles s = None \<longrightarrow>
             calls (snd r) = calls ef @ [CFindByAddress (address cw) (chainId cw), CInject ?d]
             \<and> world (snd r) = wa
             \<and> st = Some (Some ''error'')"
  proof
    assume "inputFiles s = None"
    then have "r = (Inl (TypeError ''Cannot convert undefined or null to object''), ?e2)"
      unfolding r_def by (intro retry_no_files) simp
    then show "calls (snd r) = calls ef @ [CFindByAddress (address cw) (chainId cw), CInject ?d]
             \<and> world (snd r) = wa
             \<and> st = Some (Some ''error'')"
      using S by (simp add: caught_error status_or_error_simps)
  qed
  have b: "inputFiles s = Some files
            \<and> useAllSources svc wa cf (toPathBuffers (fromBase64 svc) files) = (Inl erra, wb)
           \<longrightarrow>
             calls (snd r) = calls ef @
               [CFindByAddress (address cw) (chainId cw), CInject ?d,
                CUseAllSources cf (toPathBuffers (fromBase64 svc) files)]
             \<and> world (snd r) = wb
             \<and> st = Some (Some ''error'')
             \<and> msg = Some (Some (message_of erra))"
  proof
    assume p: "inputFiles s = Some files
            \<and> useAllSources svc wa cf (toPathBuffers (fromBase64 svc) files) = (Inl erra, wb)"
    have "r = (Inl erra, \<lparr>world = wb, calls = calls ?e2 @
        [CUseAllSources (i_contract ?d) (toPathBuffers (fromBase64 svc) files)]\<rparr>)"
      unfolding r_def using p d by (intro retry_expand_throws) simp_all
    then show "calls (snd r) = calls ef @
               [CFindByAddress (address cw) (chainId cw), CInject ?d,
                CUseAllSources cf (toPathBuffers (fromBase64 svc) files)]
             \<and> world (snd r) = wb
             \<and> st = Some (Some ''error'')
             \<and> msg = Some (Some (message_of erra))"
      using d S M by (simp add: caught_error status_or_error_simps)
  qed
  have c: "inputFiles s = Some files
            \<and> useAllSources svc wa cf (toPathBuffers (fromBase64 svc) files) = (Inr cAll, wb)
           \<longrightarrow>
             calls (snd r) = calls ef @
               [CFindByAddress (address cw) (chainId cw), CInject ?d,
                CUseAllSources cf (toPathBuffers (fromBase64 svc) files),
                CInject (?d\<lparr>i_contract := cAll\<rparr>)]
             \<and> (inject svc wb (?d\<lparr>i_contract := cAll\<rparr>) = (Inl errb, wc)
                  \<longrightarrow> world (snd r) = wc
                    \<and> st = Some (Some ''error'')
                    \<and> msg = Some (Some (message_of errb)))
             \<and> (inject svc wb (?d\<lparr>i_contract := cAll\<rparr>) = (Inr mr, wc)
                  \<longrightarrow> world (snd r) = wc
                    \<and> st = Some (if m_status mr = Some ''perfect'' \<or> m_status mr = Some ''partial''
                                 then m_status mr else Some ''extra-file-input-bug'')
                    \<and> (m_status mr \<in> {Some ''perfect'', Some ''partial'',
                                        Some ''extra-file-input-bug''}
                         \<longrightarrow> st = Some (m_status mr)))"
  proof
    assume p: "inputFiles s = Some files
            \<and> useAllSources svc wa cf (toPathBuffers (fromBase64 svc) files) = (Inr cAll, wb)"
    then have f: "inputFiles ?s1 = Some files"
      and u: "useAllSources svc (world ?e2) (i_contract ?d) (toPathBuffers (fromBase64 svc) files)
                = (Inr cAll, wb)"
      using d by simp_all
    obtain x w where second: "inject svc wb (?d\<lparr>i_contract := cAll\<rparr>) = (x, w)"
      by (cases "inject svc wb (?d\<lparr>i_contract := cAll\<rparr>)")
    show "calls (snd r) = calls ef @
               [CFindByAddress (address cw) (chainId cw), CInject ?d,
                CUseAllSources cf (toPathBuffers (fromBase64 svc) files),
                CInject (?d\<lparr>i_contract := cAll\<rparr>)]
             \<and> (inject svc wb (?d\<lparr>i_contract := cAll\<rparr>) = (Inl errb, wc)
                  \<longrightarrow> world (snd r) = wc
                    \<and> st = Some (Some ''error'')
                    \<and> msg = Some (Some (message_of errb)))
             \<and> (inject svc wb (?d\<lparr>i_contract := cAll\<rparr>) = (Inr mr, wc)
                  \<longrightarrow> world (snd r) = wc
                    \<and> st = Some (if m_status mr = Some ''perfect'' \<or> m_status mr = Some ''partial''
                                 then m_status mr else Some ''extra-file-input-bug'')
                    \<and> (m_status mr \<in> {Some ''perfect'', Some ''partial'',
                                        Some ''extra-file-input-bug''}
                         \<longrightarrow> st = Some (m_status mr)))"
    proof (cases x)
      case (Inl err)
      have "r = (Inl err, \<lparr>world = w, calls = calls ?e2 @
        [CUseAllSources (i_contract ?d) (toPathBuffers (fromBase64 svc) files),
         CInject (?d\<lparr>i_contract := cAll\<rparr>)]\<rparr>)"
        unfolding r_def using f u second Inl by (intro retry_second_throws) simp_all
      then show ?thesis
        using d second Inl S M
        by (simp add: caught_error status_or_error_simps)
    next
      case (Inr m)
      have "r = (Inr (if m_status m = Some ''perfect'' \<or> m_status m = Some ''partial'' then m else mf),
        \<lparr>world = w, calls = calls ?e2 @
        [CUseAllSources (i_contract ?d) (toPathBuffers (fromBase64 svc) files),
         CInject (?d\<lparr>i_contract := cAll\<rparr>)]\<rparr>)"
        unfolding r_def using f u second Inr by (intro retry_second_returns) simp_all
      then show ?thesis
        using d second Inr bug S
        by (auto simp: caught_error status_or_error_simps)
    qed
  qed
  show "\<exists>s' e'. verifyOne svc k (s, e) = (None, s', e')
       \<and> (inputFiles s = None \<longrightarrow>
             calls e' = calls ef @
               [CFindByAddress (address cw) (chainId cw),
                CInject (mkInputData (cw\<lparr>contract := cf\<rparr>))]
             \<and> world e' = wa
             \<and> map_option status (map_of (wrappers_of s') k) = Some (Some ''error''))
       \<and> (inputFiles s = Some files
            \<and> useAllSources svc wa cf (toPathBuffers (fromBase64 svc) files) = (Inl erra, wb)
           \<longrightarrow>
             calls e' = calls ef @
               [CFindByAddress (address cw) (chainId cw),
                CInject (mkInputData (cw\<lparr>contract := cf\<rparr>)),
                CUseAllSources cf (toPathBuffers (fromBase64 svc) files)]
             \<and> world e' = wb
             \<and> map_option status (map_of (wrappers_of s') k) = Some (Some ''error'')
             \<and> map_option statusMessage (map_of (wrappers_of s') k)
                 = Some (Some (message_of erra)))
       \<and> (inputFiles s = Some files
            \<and> useAllSources svc wa cf (toPathBuffers (fromBase64 svc) files) = (Inr cAll, wb)
           \<longrightarrow>
             calls e' = calls ef @
               [CFindByAddress (address cw) (chainId cw),
                CInject (mkInputData (cw\<lparr>contract := cf\<rparr>)),
                CUseAllSources cf (toPathBuffers (fromBase64 svc) files),
                CInject ((mkInputData (cw\<lparr>contract := cf\<rparr>))\<lparr>i_contract := cAll\<rparr>)]
             \<and> (inject svc wb ((mkInputData (cw\<lparr>contract := cf\<rparr>))\<lparr>i_contract := cAll\<rparr>)
                    = (Inl errb, wc)
                  \<longrightarrow> world e' = wc
                    \<and> map_option status (map_of (wrappers_of s') k) = Some (Some ''error'')
                    \<and> map_option statusMessage (map_of (wrappers_of s') k)
                        = Some (Some (message_of errb)))
             \<and> (inject svc wb ((mkInputData (cw\<lparr>contract := cf\<rparr>))\<lparr>i_contract := cAll\<rparr>)
                    = (Inr mr, wc)
                  \<longrightarrow> world e' = wc
                    \<and> map_option status (map_of (wrappers_of s') k) =
                        Some (if m_status mr = Some ''perfect'' \<or> m_status mr = Some ''partial''
                              then m_status mr else Some ''extra-file-input-bug'')
                    \<and> (m_status mr \<in> {Some ''perfect'', Some ''partial'',
                                        Some ''extra-file-input-bug''}
                         \<longrightarrow> map_option status (map_of (wrappers_of s') k)
                               = Some (m_status mr))))"
    by (rule exI[of _ s'], rule exI[of _ "snd r"], intro conjI, rule v,
        rule a[unfolded st_def], rule b[unfolded st_def msg_def], rule c[unfolded st_def msg_def])
next
  assume "inject svc (world le) ld = (Inr result, lwa)
       \<and> m_status result = Some ''extra-file-input-bug''
       \<and> useAllSources svc lwa (i_contract ld) lfiles = (Inr lAll, lwb)
       \<and> inject svc lwb (ld\<lparr>i_contract := lAll\<rparr>) = (Inr tempResult, lwc)"
  then show "legacyVerifyEndpoint svc ld lfiles le =
         (SendResult [if m_status tempResult = Some ''perfect'' then tempResult else result],
          \<lparr>world = lwc, calls = calls le @
             [CInject ld, CUseAllSources (i_contract ld) lfiles,
              CInject (ld\<lparr>i_contract := lAll\<rparr>)]\<rparr>)"
    by (simp add: legacy_retry_returns)
qed

text \<open>
  The candidate with one source in the session with two files, and the same contract and files
  sent to the legacy endpoint: both retries are perfect.
\<close>

theorem verifyOne_retry_witness:
  "(\<exists>s' e'. verifyOne demo_services demo_id (full_session, demo_ext) = (None, s', e')
      \<and> injects (calls e') = 2
      \<and> map_option status (map_of (wrappers_of s') demo_id) = Some (Some ''perfect''))
   \<and> response_statuses (fst (legacyVerifyEndpoint demo_services legacy_input legacy_files demo_ext))
       = [Some ''perfect'']"
proof -
  let ?c = "contract verifiable_wrapper"
  let ?d = "mkInputData (verifiable_wrapper\<lparr>contract := ?c\<rparr>)"
  let ?files = "[(''0xY29udHJhY3QgQSB7fQ=='', small_file), (''0xQg=='', b_file)]"
  have wrapper: "map_of (wrappers_of full_session) demo_id = Some verifiable_wrapper"
    by (simp add: full_session_def wrappers_of_def)
  have fetch: "checkAndFetchMissing demo_services ?c demo_ext = (?c, demo_ext)"
    by (simp add: checkAndFetchMissing_def demo_services_def verifiable_wrapper_def)
  have gate: "isVerifiable demo_services (verifiable_wrapper\<lparr>contract := ?c\<rparr>)"
    by (simp add: demo_services_def isVerifiable_spec_def verifiable_wrapper_def)
  have nofound: "findByAddress demo_services (world demo_ext) (address verifiable_wrapper)
                 (chainId verifiable_wrapper) = Inr []"
    by (simp add: demo_services_def demo_ext_def)
  have files: "inputFiles full_session = Some ?files"
    by (simp add: full_session_def)
  have first: "inject demo_services (world demo_ext) ?d = (Inr (demo_inject ?d), [])"
    by (simp add: demo_services_def demo_ext_def)
  have bug: "m_status (demo_inject ?d) = Some ''extra-file-input-bug''"
    by (simp add: demo_inject_def mkInputData_def verifiable_wrapper_def)
  have expand: "useAllSources demo_services [] ?c (toPathBuffers (fromBase64 demo_services) ?files)
                  = (Inr legacy_expanded, [])"
    by (simp add: demo_services_def toPathBuffers_def small_file_def b_file_def legacy_expanded_def)
  have second: "inject demo_services [] (?d\<lparr>i_contract := legacy_expanded\<rparr>)
                  = (Inr (demo_inject (?d\<lparr>i_contract := legacy_expanded\<rparr>)), [])"
    by (simp add: demo_services_def)
  have perfect: "m_status (demo_inject (?d\<lparr>i_contract := legacy_expanded\<rparr>)) = Some ''perfect''"
    by (simp add: demo_inject_def legacy_expanded_def)
  have ld: "legacy_input = ?d" "i_contract legacy_input = ?c"
    by (simp_all add: legacy_input_def mkInputData_def)
  have lexpand: "useAllSources demo_services [] (i_contract legacy_input) legacy_files
                   = (Inr legacy_expanded, [])"
    by (simp add: demo_services_def legacy_files_def legacy_expanded_def legacy_input_def
        mkInputData_def)
  note inst = verifyOne_retry[where s = full_session and k = demo_id and cw = verifiable_wrapper
      and svc = demo_services and e = demo_ext and cf = "?c" and ef = demo_ext
      and mf = "demo_inject ?d" and wa = "[]" and files = "?files" and cAll = legacy_expanded
      and wb = "[]" and wc = "[]"
      and mr = "demo_inject (?d\<lparr>i_contract := legacy_expanded\<rparr>)"
      and le = demo_ext and ld = legacy_input and result = "demo_inject ?d" and lwa = "[]"
      and lfiles = legacy_files and lAll = legacy_expanded and lwb = "[]"
      and tempResult = "demo_inject (?d\<lparr>i_contract := legacy_expanded\<rparr>)" and lwc = "[]"]
  from inst wrapper fetch gate nofound first bug files expand second perfect
  obtain s' e' where
    r: "verifyOne demo_services demo_id (full_session, demo_ext) = (None, s', e')"
    and c: "calls e' = calls demo_ext @
               [CFindByAddress (address verifiable_wrapper) (chainId verifiable_wrapper),
                CInject ?d,
                CUseAllSources ?c (toPathBuffers (fromBase64 demo_services) ?files),
                CInject (?d\<lparr>i_contract := legacy_expanded\<rparr>)]"
    and st: "map_option status (map_of (wrappers_of s') demo_id) = Some (Some ''perfect'')"
    by auto
  have i: "injects (calls e') = 2"
    unfolding c by (simp add: demo_ext_def)
  have "legacyVerifyEndpoint demo_services legacy_input legacy_files demo_ext =
         (SendResult [demo_inject (?d\<lparr>i_contract := legacy_expanded\<rparr>)],
          \<lparr>world = [], calls = calls demo_ext @
             [CInject legacy_input, CUseAllSources (i_contract legacy_input) legacy_files,
              CInject (legacy_input\<lparr>i_contract := legacy_expanded\<rparr>)]\<rparr>)"
    using inst first bug lexpand second perfect ld by simp
  then have l: "response_statuses (fst (legacyVerifyEndpoint demo_services legacy_input legacy_files demo_ext))
       = [Some ''perfect'']"
    using perfect by (simp add: response_statuses_def)
  from r i st l show ?thesis by blast
qed

text \<open>
  C3 as stated fails. With a \<^verbatim>\<open>useAllSources\<close> that throws, the first attempt returns
  extra-file-input-bug, verification is not invoked again and the status recorded is
  \<^verbatim>\<open>error\<close>. In \<^verbatim>\<open>legacyVerifyEndpoint\<close>, a retry that returns partial is dropped and the
  answer carries extra-file-input-bug.
\<close>

theorem retry_counterexample:
  "map_sum message_of m_status
       (fst (inject broken_services (world demo_ext) (mkInputData verifiable_wrapper)))
     = Inr (Some ''extra-file-input-bug'')
   \<and> injects (calls (snd (snd (verifyOne broken_services demo_id (full_session, demo_ext))))) = 1
   \<and> map_option status
        (map_of (wrappers_of (fst (snd (verifyOne broken_services demo_id (full_session, demo_ext)))))
           demo_id) = Some (Some ''error'')
   \<and> map_sum message_of m_status
       (fst (inject partial_services (world demo_ext) legacy_input))
     = Inr (Some ''extra-file-input-bug'')
   \<and> useAllSources partial_services [] (i_contract legacy_input) legacy_files
     = (Inr legacy_expanded, [])
   \<and> map_sum message_of m_status
       (fst (inject partial_services [] (legacy_input\<lparr>i_contract := legacy_expanded\<rparr>)))
     = Inr (Some ''partial'')
   \<and> response_statuses (fst (legacyVerifyEndpoint partial_services legacy_input legacy_files demo_ext))
     = [Some ''extra-file-input-bug'']"
  by (simp add: checkAndFetchMissing_def verifyOne_def put_wrapper_def
        call_inject_def call_useAllSources_def retry_def attempt_def caught_def status_or_error_def
        record_match_def mkInputData_def wrappers_of_def toPathBuffers_def
        demo_services_def demo_inject_def demo_ext_def demo_id_def small_file_def b_file_def
        isVerifiable_spec_def broken_services_def failing_expand_def partial_services_def
        partial_inject_def legacy_input_def legacy_files_def legacy_expanded_def
        legacyVerifyEndpoint_def response_statuses_def
        full_session_def verifiable_wrapper_def Let_def)

section \<open>Properties of the batch lookup\<close>

lemma lookup_chain_add_hits: "lookup_chain svc w a m c = add_hits a (hit svc w a c) m"
proof (cases "findAllByAddress svc w a c")
  case (Inl err)
  then show ?thesis by (simp add: lookup_chain_def lookup_chain_try_def hit_def add_hits_def)
next
  case (Inr found)
  show ?thesis
  proof (cases found)
    case Nil
    then show ?thesis using Inr
      by (simp add: lookup_chain_def lookup_chain_try_def hit_def add_hits_def)
  next
    case (Cons f fs)
    show ?thesis
    proof (cases "map_of m a")
      case None
      then show ?thesis using Inr Cons
        by (simp add: lookup_chain_def lookup_chain_try_def hit_def add_hits_def Let_def
            AList.update_conv' push_chain_def)
    next
      case (Some r)
      then show ?thesis using Inr Cons
        by (simp add: lookup_chain_def lookup_chain_try_def hit_def add_hits_def Let_def
            push_chain_def split: option.splits)
    qed
  qed
qed

lemma add_hits_Nil [simp]: "add_hits a [] m = m"
  by (simp add: add_hits_def)

lemma add_hits_append: "add_hits a hs2 (add_hits a hs1 m) = add_hits a (hs1 @ hs2) m"
proof (cases "hs1 = []")
  case True
  then show ?thesis by simp
next
  case False
  note h1 = False
  show ?thesis
  proof (cases "hs2 = []")
    case True
    then show ?thesis by simp
  next
    case False
    show ?thesis
    proof (cases "map_of m a")
      case None
      then show ?thesis using h1 False
        by (simp add: add_hits_def AList.update_conv')
    next
      case (Some r)
      then show ?thesis using h1 False
        by (cases "r_chainIds r") (simp_all add: add_hits_def AList.update_conv')
    qed
  qed
qed

lemma chains_loop_add_hits:
  "foldl (lookup_chain svc w a) m cs = add_hits a (hits svc w a cs) m"
proof (induction cs arbitrary: m)
  case Nil
  then show ?case by (simp add: hits_def)
next
  case (Cons c cs)
  have "foldl (lookup_chain svc w a) m (c # cs)
          = foldl (lookup_chain svc w a) (lookup_chain svc w a m c) cs"
    by simp
  also have "\<dots> = add_hits a (hits svc w a cs) (lookup_chain svc w a m c)"
    by (rule Cons.IH)
  also have "\<dots> = add_hits a (hits svc w a cs) (add_hits a (hit svc w a c) m)"
    by (simp only: lookup_chain_add_hits)
  also have "\<dots> = add_hits a (hit svc w a c @ hits svc w a cs) m"
    by (rule add_hits_append)
  also have "hit svc w a c @ hits svc w a cs = hits svc w a (c # cs)"
    by (simp add: hits_def)
  finally show ?case .
qed

lemma map_of_add_hits_other: "x \<noteq> a \<Longrightarrow> map_of (add_hits a hs m) x = map_of m x"
  by (simp add: add_hits_def AList.update_conv' split: option.splits)

lemma distinct_add_hits: "distinct (map fst m) \<Longrightarrow> distinct (map fst (add_hits a hs m))"
  by (simp add: add_hits_def AList.distinct_update split: option.splits)

lemma map_of_add_hits_same:
  "map_of (add_hits a hs m) a =
     (if hs = [] then map_of m a
      else case map_of m a of
             None \<Rightarrow> Some \<lparr>r_address = a, r_status = None, r_chainIds = Some hs\<rparr>
           | Some r \<Rightarrow>
               (case r_chainIds r of
                  None \<Rightarrow> Some r
                | Some cs \<Rightarrow> Some (r\<lparr>r_chainIds := Some (cs @ hs)\<rparr>)))"
  by (simp add: add_hits_def AList.update_conv' split: option.splits)

lemma lookup_address_eq:
  "lookup_address svc w cs m a =
     (let m1 = add_hits a (hits svc w a cs) m
      in if map_of m1 a = None then AList.update a (falseResult a) m1 else m1)"
  by (simp add: lookup_address_def chains_loop_add_hits falseResult_def Let_def)

lemma concat_replicate_Suc: "concat (replicate n hs) @ hs = concat (replicate (Suc n) hs)"
  by (induction n) simp_all

lemma answered_step:
  assumes inv: "answered svc w cs seen m"
  shows "answered svc w cs (seen @ [a]) (lookup_address svc w cs m a)"
proof -
  let ?hs = "hits svc w a cs"
  let ?m1 = "add_hits a ?hs m"
  let ?m2 = "lookup_address svc w cs m a"
  from inv have d: "distinct (map fst m)"
    and mo: "\<And>x. map_of m x =
               (if x \<in> set seen then Some (answer svc w cs x (count_list seen x)) else None)"
    by (simp_all add: answered_def)
  have d2: "distinct (map fst ?m2)"
    using d by (simp add: lookup_address_eq Let_def distinct_add_hits AList.distinct_update)
  have other: "map_of ?m2 x = map_of m x" if "x \<noteq> a" for x
    using that by (simp add: lookup_address_eq Let_def AList.update_conv' map_of_add_hits_other)
  have same: "map_of ?m2 a = Some (answer svc w cs a (Suc (count_list seen a)))"
  proof (cases "a \<in> set seen")
    case False
    then have none: "map_of m a = None" and c0: "count_list seen a = 0"
      using mo by simp_all
    show ?thesis
      using none c0
      by (simp add: lookup_address_eq Let_def map_of_add_hits_same AList.update_conv' answer_def)
  next
    case True
    then have some: "map_of m a = Some (answer svc w cs a (count_list seen a))"
      using mo by simp
    show ?thesis
    proof (cases "?hs = []")
      case True
      then show ?thesis using some
        by (simp add: lookup_address_eq Let_def answer_def)
    next
      case False
      then show ?thesis using some
        by (simp add: lookup_address_eq Let_def map_of_add_hits_same answer_def
            concat_replicate_Suc del: replicate.simps)
    qed
  qed
  have "map_of ?m2 x =
          (if x \<in> set (seen @ [a])
           then Some (answer svc w cs x (count_list (seen @ [a]) x)) else None)" for x
  proof (cases "x = a")
    case True
    then show ?thesis using same by simp
  next
    case False
    then show ?thesis using other[OF False] mo by simp
  qed
  then show ?thesis using d2 by (simp add: answered_def)
qed

lemma answered_loop:
  "answered svc w cs seen m \<Longrightarrow>
   answered svc w cs (seen @ as) (foldl (lookup_address svc w cs) m as)"
proof (induction as arbitrary: seen m)
  case Nil
  then show ?case by simp
next
  case (Cons a as)
  have "answered svc w cs ((seen @ [a]) @ as)
          (foldl (lookup_address svc w cs) (lookup_address svc w cs m a) as)"
    by (rule Cons.IH) (rule answered_step[OF Cons.prems])
  then show ?case by simp
qed

lemma answered_final:
  "answered svc w cs as (foldl (lookup_address svc w cs) [] as)"
  using answered_loop[of svc w cs "[]" "[]" as] by (simp add: answered_def)

lemma answer_address [simp]: "r_address (answer svc w cs a n) = a"
  by (simp add: answer_def falseResult_def)

lemma answered_addresses:
  assumes "answered svc w cs seen m"
  shows "map r_address (map snd m) = map fst m" and "set (map fst m) = set seen"
proof -
  from assms have d: "distinct (map fst m)"
    and mo: "\<And>x. map_of m x =
               (if x \<in> set seen then Some (answer svc w cs x (count_list seen x)) else None)"
    by (simp_all add: answered_def)
  have "\<forall>p\<in>set m. r_address (snd p) = fst p"
  proof
    fix p assume "p \<in> set m"
    then have "(fst p, snd p) \<in> set m" by simp
    then have "map_of m (fst p) = Some (snd p)" using d by (simp add: map_of_eq_Some_iff)
    then have "snd p = answer svc w cs (fst p) (count_list seen (fst p))"
      using mo[of "fst p"] by (simp split: if_splits)
    then have "r_address (snd p) = r_address (answer svc w cs (fst p) (count_list seen (fst p)))"
      by (rule arg_cong)
    then show "r_address (snd p) = fst p" by simp
  qed
  then show "map r_address (map snd m) = map fst m" by simp
  have "dom (map_of m) = set seen" using mo by (auto simp: dom_def)
  then show "set (map fst m) = set seen" by (simp add: dom_map_of_conv_image_fst)
qed

lemma hit_in_hits:
  "c \<in> set cs \<Longrightarrow> findAllByAddress svc w a c = Inr (f # fs) \<Longrightarrow>
   (c, m_status f) \<in> set (hits svc w a cs)"
  by (auto simp: hits_def hit_def intro!: bexI[of _ c])

lemma hits_nomatch:
  "\<forall>c\<in>set cs. (\<exists>err. findAllByAddress svc w a c = Inl err) \<or> findAllByAddress svc w a c = Inr [] \<Longrightarrow>
   hits svc w a cs = []"
  by (auto simp: hits_def hit_def)

lemma lookup_chain_throw_unchanged:
  "fst (lookup_chain_try svc w a m c) \<noteq> None \<Longrightarrow> lookup_chain svc w a m c = m"
  by (auto simp: lookup_chain_def lookup_chain_try_def Let_def push_chain_def AList.update_conv'
      split: sum.splits list.splits option.splits if_splits)

text \<open>
  C8. Whatever the lookups do, the answer of \<^verbatim>\<open>checkAllByAddresses\<close> has exactly one entry
  for every requested address, and that entry is the answer defined above: status
  \<^verbatim>\<open>"false"\<close> for an address all of whose lookups, on the requested chains, throw or find
  nothing, and otherwise every chain with a match, each with the status of its first match. So
  a match on one chain is reported whatever the lookups on the other chains and for the other
  addresses did. A \<^verbatim>\<open>try\<close> block that throws leaves the map as it was, and its exception
  goes no further than the \<^verbatim>\<open>catch\<close>: these are the only places of the loops that throw.
\<close>

theorem checkAllByAddresses_false:
  "set (map r_address (checkAllByAddresses svc w addresses chainIds)) = set addresses
   \<and> distinct (map r_address (checkAllByAddresses svc w addresses chainIds))
   \<and> (a \<in> set addresses \<longrightarrow>
        answer svc w chainIds a (count_list addresses a)
          \<in> set (checkAllByAddresses svc w addresses chainIds))
   \<and> (a \<in> set addresses
        \<and> (\<forall>c\<in>set chainIds. (\<exists>err. findAllByAddress svc w a c = Inl err)
                              \<or> findAllByAddress svc w a c = Inr [])
      \<longrightarrow> \<lparr>r_address = a, r_status = Some ''false'', r_chainIds = None\<rparr>
            \<in> set (checkAllByAddresses svc w addresses chainIds))
   \<and> (a \<in> set addresses \<and> c \<in> set chainIds \<and> findAllByAddress svc w a c = Inr (f # fs)
      \<longrightarrow> (\<exists>r cs. r \<in> set (checkAllByAddresses svc w addresses chainIds)
                  \<and> r_address r = a \<and> r_status r = None \<and> r_chainIds r = Some cs
                  \<and> (c, m_status f) \<in> set cs))
   \<and> (fst (lookup_chain_try svc w a m c) \<noteq> None \<longrightarrow> lookup_chain svc w a m c = m)"
proof -
  let ?m = "foldl (lookup_address svc w chainIds) [] addresses"
  let ?R = "checkAllByAddresses svc w addresses chainIds"
  have inv: "answered svc w chainIds addresses ?m" by (rule answered_final)
  have R: "?R = map snd ?m" by (simp add: checkAllByAddresses_def)
  have addr: "map r_address ?R = map fst ?m"
    unfolding R by (rule answered_addresses(1)[OF inv])
  have 1: "set (map r_address ?R) = set addresses"
    unfolding addr by (rule answered_addresses(2)[OF inv])
  have 2: "distinct (map r_address ?R)"
    unfolding addr using inv by (simp add: answered_def)
  have mem: "answer svc w chainIds a (count_list addresses a) \<in> set ?R" if "a \<in> set addresses"
  proof -
    have "map_of ?m a = Some (answer svc w chainIds a (count_list addresses a))"
      using inv that by (simp add: answered_def)
    then have "(a, answer svc w chainIds a (count_list addresses a)) \<in> set ?m"
      by (rule map_of_SomeD)
    then have "answer svc w chainIds a (count_list addresses a) \<in> snd ` set ?m"
      by (rule rev_image_eqI) simp
    then show ?thesis unfolding R by simp
  qed
  have 3: "a \<in> set addresses \<longrightarrow> answer svc w chainIds a (count_list addresses a) \<in> set ?R"
    using mem by blast
  have 4: "a \<in> set addresses
        \<and> (\<forall>c\<in>set chainIds. (\<exists>err. findAllByAddress svc w a c = Inl err)
                              \<or> findAllByAddress svc w a c = Inr [])
      \<longrightarrow> \<lparr>r_address = a, r_status = Some ''false'', r_chainIds = None\<rparr> \<in> set ?R"
  proof
    assume h: "a \<in> set addresses
        \<and> (\<forall>c\<in>set chainIds. (\<exists>err. findAllByAddress svc w a c = Inl err)
                              \<or> findAllByAddress svc w a c = Inr [])"
    then have "hits svc w a chainIds = []" by (simp add: hits_nomatch)
    then have "answer svc w chainIds a (count_list addresses a)
                 = \<lparr>r_address = a, r_status = Some ''false'', r_chainIds = None\<rparr>"
      by (simp add: answer_def falseResult_def)
    then show "\<lparr>r_address = a, r_status = Some ''false'', r_chainIds = None\<rparr> \<in> set ?R"
      using mem h by simp
  qed
  have 5: "a \<in> set addresses \<and> c \<in> set chainIds \<and> findAllByAddress svc w a c = Inr (f # fs)
      \<longrightarrow> (\<exists>r cs. r \<in> set ?R \<and> r_address r = a \<and> r_status r = None \<and> r_chainIds r = Some cs
                  \<and> (c, m_status f) \<in> set cs)"
  proof
    assume h: "a \<in> set addresses \<and> c \<in> set chainIds \<and> findAllByAddress svc w a c = Inr (f # fs)"
    let ?hs = "hits svc w a chainIds"
    let ?n = "count_list addresses a"
    have hit: "(c, m_status f) \<in> set ?hs" using h by (simp add: hit_in_hits)
    then have ne: "?hs \<noteq> []" by auto
    have "?n \<noteq> 0" using h by (simp add: count_list_0_iff)
    then obtain n' where n: "?n = Suc n'" by (cases ?n) simp_all
    have in_cs: "(c, m_status f) \<in> set (concat (replicate ?n ?hs))"
      unfolding n using hit by simp
    have ans: "answer svc w chainIds a ?n
                 = \<lparr>r_address = a, r_status = None, r_chainIds = Some (concat (replicate ?n ?hs))\<rparr>"
      using ne by (simp add: answer_def)
    have "answer svc w chainIds a ?n \<in> set ?R" using mem h by simp
    then show "\<exists>r cs. r \<in> set ?R \<and> r_address r = a \<and> r_status r = None \<and> r_chainIds r = Some cs
                  \<and> (c, m_status f) \<in> set cs"
      using ans in_cs
      by (intro exI[of _ "answer svc w chainIds a ?n"] exI[of _ "concat (replicate ?n ?hs)"]) simp
  qed
  have 6: "fst (lookup_chain_try svc w a m c) \<noteq> None \<longrightarrow> lookup_chain svc w a m c = m"
    by (rule impI) (rule lookup_chain_throw_unchanged)
  from 1 2 3 4 5 6 show ?thesis by (intro conjI)
qed

text \<open>
  Two addresses on chains 0, 1 and 5: the lookup throws on chain 0 for both; the first address
  has its match on chain 1 reported after that throw, the second has none.
\<close>

theorem checkAllByAddresses_false_witness:
  "checkAllByAddresses demo_services (world verified_ext) [''0xabc'', ''0xdef''] [''0'', ''1'', ''5'']
     = [\<lparr>r_address = ''0xabc'', r_status = None, r_chainIds = Some [(''1'', Some ''perfect'')]\<rparr>,
        \<lparr>r_address = ''0xdef'', r_status = Some ''false'', r_chainIds = None\<rparr>]"
proof -
  note inst = checkAllByAddresses_false[where svc = demo_services and w = "world verified_ext"
      and addresses = "[''0xabc'', ''0xdef'']" and chainIds = "[''0'', ''1'', ''5'']"]
  have throws: "fst (lookup_chain_try demo_services (world verified_ext) ''0xabc'' [] ''0'') \<noteq> None"
    by (simp add: lookup_chain_try_def demo_services_def)
  have found: "''0xabc'' \<in> set [''0xabc'', ''0xdef''] \<and> ''1'' \<in> set [''0'', ''1'', ''5'']
        \<and> findAllByAddress demo_services (world verified_ext) ''0xabc'' ''1'' = Inr (stored_match # [])"
    by (simp add: demo_services_def verified_ext_def)
  have none: "''0xdef'' \<in> set [''0xabc'', ''0xdef'']
        \<and> (\<forall>c\<in>set [''0'', ''1'', ''5''].
              (\<exists>err. findAllByAddress demo_services (world verified_ext) ''0xdef'' c = Inl err)
              \<or> findAllByAddress demo_services (world verified_ext) ''0xdef'' c = Inr [])"
    by (simp add: demo_services_def verified_ext_def)
  have a: "\<lparr>r_address = ''0xdef'', r_status = Some ''false'', r_chainIds = None\<rparr>
         \<in> set (checkAllByAddresses demo_services (world verified_ext) [''0xabc'', ''0xdef'']
                  [''0'', ''1'', ''5''])"
    using inst[where a = "''0xdef''"] none by blast
  have b: "\<exists>r cs. r \<in> set (checkAllByAddresses demo_services (world verified_ext)
                               [''0xabc'', ''0xdef''] [''0'', ''1'', ''5''])
                  \<and> r_address r = ''0xabc'' \<and> r_status r = None \<and> r_chainIds r = Some cs
                  \<and> (''1'', m_status stored_match) \<in> set cs"
    using inst[where a = "''0xabc''" and c = "''1''" and f = stored_match and fs = "[]"] found
    by blast
  from a b throws show ?thesis
    by (simp add: checkAllByAddresses_def lookup_address_def lookup_chain_def lookup_chain_try_def
        push_chain_def demo_services_def verified_ext_def stored_match_def Let_def)
qed

section \<open>Properties of the target of verification\<close>

















end
